theory Spec2Isabelle
  imports Main "HOL-Library.Sublist" "HOL-Library.Char_ord" "HOL-Library.List_Lexorder"
begin

section \<open>Python string primitives used by the generator\<close>

text \<open>
  Strings are byte lists holding the UTF-8 encoding of the Python text, so that the
  lexicographic order on \<^typ>\<open>string\<close> is the code-point order Python's \<open>sorted\<close> uses.
  \<open>str.lower\<close> is modelled on the ASCII letters; every other byte is left as it is
  (the one non-ASCII character of the tables, the last letter of the word saute, is lower-case).
  Python lowers the capital letters of every script, so a file name or a word with a
  capital letter outside ASCII is outside this model.
\<close>

definition lower_char :: "char \<Rightarrow> char" where
  "lower_char c =
     (if CHR ''A'' \<le> c \<and> c \<le> CHR ''Z'' then char_of (of_char c + (32::nat)) else c)"

definition lower :: "string \<Rightarrow> string" where
  "lower s = map lower_char s"

definition endswith :: "string \<Rightarrow> string \<Rightarrow> bool" where
  "endswith s suf = suffix suf s"

text \<open>
  \<open>s.replace(old, new)\<close>: the occurrences of \<open>old\<close> are found from left to right and do
  not overlap. With an empty \<open>old\<close>, Python puts \<open>new\<close> before every character and at the
  end.
\<close>

fun replace_scan :: "string \<Rightarrow> string \<Rightarrow> string \<Rightarrow> string" where
  "replace_scan old new [] = []"
| "replace_scan old new (c # cs) =
     (if prefix old (c # cs)
      then new @ replace_scan old new (drop (length old - 1) cs)
      else c # replace_scan old new cs)"

definition replace :: "string \<Rightarrow> string \<Rightarrow> string \<Rightarrow> string" where
  "replace s old new =
     (if old = [] then new @ concat (map (\<lambda>c. c # new) s) else replace_scan old new s)"

text \<open>\<open>sub in s\<close> on strings is the substring test.\<close>

definition str_in :: "string \<Rightarrow> string \<Rightarrow> bool" where
  "str_in sub s = sublist sub s"

section \<open>The asset inventory loader\<close>

text \<open>
  The directory \<open>public/SignFiles\<close> is the input: \<open>None\<close> when it does not exist,
  otherwise the names of its entries. \<open>glob("*.sigml")\<close> keeps the names that end in
  \<open>.sigml\<close> (compared as they are, as on a POSIX file system). \<open>Path.stem\<close> cuts the
  name at its last dot, unless that dot is the first or the last character of the name.
\<close>

definition glob_sigml :: "string list \<Rightarrow> string list" where
  "glob_sigml names = filter (\<lambda>n. endswith n ''.sigml'') names"

definition stem :: "string \<Rightarrow> string" where
  "stem name =
     (let ext = takeWhile (\<lambda>c. c \<noteq> CHR ''.'') (rev name);
          i = length name - length ext - 1
      in if CHR ''.'' \<in> set name \<and> 0 < i \<and> ext \<noteq> [] then take i name else name)"

definition load_available_signs :: "string list option \<Rightarrow> string set" where
  "load_available_signs sign_dir =
     (case sign_dir of
        None \<Rightarrow> {}
      | Some names \<Rightarrow> set (map (\<lambda>file. lower (stem file)) (glob_sigml names)))"

section \<open>The vocabulary and the hand-written tables\<close>

definition CISLR_VOCABULARY :: "string list" where
  "CISLR_VOCABULARY =
  [''evacuate'', ''rescue'', ''distribute'', ''deploy'', ''search'', ''alert'', ''warn'',
   ''emergency'', ''danger'', ''safe'', ''shelter'', ''relief'', ''aid'', ''support'',
   ''assist'', ''protect'', ''injured'', ''injury'', ''medical'', ''medicine'', ''treat'',
   ''flood'', ''earthquake'', ''fire'', ''storm'', ''cyclone'', ''tsunami'', ''landslide'',
   ''disaster'', ''crisis'', ''victim'', ''survivor'', ''damage'', ''destroy'',
   ''rebuild'', ''recover'', ''evacuee'', ''refugee'', ''volunteer'', ''donation'',
   ''supply'', ''provision'', ''walk'', ''run'', ''jog'', ''sprint'', ''jump'', ''leap'',
   ''hop'', ''skip'', ''sit'', ''stand'', ''lie'', ''kneel'', ''crouch'', ''bend'',
   ''bow'', ''stretch'', ''crawl'', ''climb'', ''descend'', ''ascend'', ''swim'', ''dive'',
   ''float'', ''fly'', ''drive'', ''ride'', ''pedal'', ''roll'', ''spin'', ''rotate'',
   ''twist'', ''turn'', ''slide'', ''slip'', ''fall'', ''trip'', ''stumble'', ''push'',
   ''pull'', ''lift'', ''carry'', ''hold'', ''grab'', ''grasp'', ''grip'', ''release'',
   ''drop'', ''throw'', ''toss'', ''catch'', ''hit'', ''strike'', ''punch'', ''slap'',
   ''clap'', ''point'', ''wave'', ''shake'', ''touch'', ''feel'', ''scratch'', ''rub'',
   ''pat'', ''tap'', ''poke'', ''squeeze'', ''pinch'', ''twist'', ''tear'', ''fold'',
   ''unfold'', ''open'', ''close'', ''lock'', ''unlock'', ''turn'', ''eat'', ''drink'',
   ''cook'', ''bake'', ''fry'', ''boil'', ''steam'', ''grill'', ''clean'', ''wash'',
   ''wipe'', ''scrub'', ''sweep'', ''mop'', ''vacuum'', ''dust'', ''bath'', ''shower'',
   ''brush'', ''comb'', ''shave'', ''dress'', ''wear'', ''remove'', ''read'', ''write'',
   ''draw'', ''paint'', ''sketch'', ''color'', ''erase'', ''study'', ''learn'', ''teach'',
   ''explain'', ''demonstrate'', ''practice'', ''work'', ''type'', ''calculate'',
   ''measure'', ''weigh'', ''count'', ''talk'', ''speak'', ''say'', ''tell'', ''ask'',
   ''answer'', ''question'', ''reply'', ''call'', ''text'', ''email'', ''message'',
   ''chat'', ''discuss'', ''argue'', ''debate'', ''listen'', ''hear'', ''watch'', ''see'',
   ''look'', ''observe'', ''examine'', ''inspect'', ''read'', ''understand'',
   ''comprehend'', ''interpret'', ''translate'', ''sign'', ''gesture'', ''indicate'',
   ''signal'', ''express'', ''communicate'', ''play'', ''exercise'', ''train'',
   ''practice'', ''compete'', ''race'', ''win'', ''lose'', ''kick'', ''dribble'', ''pass'',
   ''shoot'', ''score'', ''defend'', ''attack'', ''bat'', ''bowl'', ''field'', ''catch'',
   ''throw'', ''pitch'', ''serve'', ''volley'', ''smash'', ''rally'', ''box'', ''wrestle'',
   ''fight'', ''punch'', ''kick'', ''yoga'', ''meditate'', ''balance'', ''pose'',
   ''build'', ''construct'', ''assemble'', ''install'', ''repair'', ''fix'', ''maintain'',
   ''design'', ''plan'', ''organize'', ''arrange'', ''prepare'', ''setup'', ''operate'',
   ''control'', ''manage'', ''supervise'', ''coordinate'', ''produce'', ''manufacture'',
   ''create'', ''make'', ''craft'', ''sell'', ''buy'', ''trade'', ''exchange'',
   ''purchase'', ''pay'', ''receive'', ''deliver'', ''transport'', ''load'', ''unload'',
   ''pack'', ''unpack'', ''inventory'', ''stock'', ''supply'', ''distribute'',
   ''allocate'', ''diagnose'', ''examine'', ''check'', ''test'', ''scan'', ''x-ray'',
   ''treat'', ''cure'', ''heal'', ''recover'', ''rehabilitate'', ''inject'', ''vaccinate'',
   ''medicate'', ''prescribe'', ''dose'', ''bandage'', ''dress'', ''stitch'', ''operate'',
   ''surgery'', ''measure'', ''temperature'', ''pressure'', ''pulse'', ''heartbeat'',
   ''cough'', ''sneeze'', ''vomit'', ''bleed'', ''hurt'', ''pain'', ''ache'', ''chop'',
   ''cut'', ''slice'', ''dice'', ''mince'', ''shred'', ''grate'', ''peel'', ''skin'',
   ''core'', ''pit'', ''seed'', ''mix'', ''stir'', ''blend'', ''whisk'', ''beat'',
   ''fold'', ''knead'', ''roll'', ''shape'', ''form'', ''mold'', ''season'', ''salt'',
   ''pepper'', ''spice'', ''flavor'', ''taste'', ''bake'', ''roast'', ''grill'', ''broil'',
   ''toast'', ''fry'', (''saut'' @ [CHR 0xC3, CHR 0xA9]), ''pan-fry'', ''deep-fry'',
   ''boil'', ''simmer'', ''poach'', ''blanch'', ''steam'', ''serve'', ''plate'',
   ''garnish'', ''present'']"

definition INCLUDE_VOCABULARY :: "string list" where
  "INCLUDE_VOCABULARY =
  [''click'', ''tap'', ''swipe'', ''scroll'', ''zoom'', ''pinch'', ''type'', ''keyboard'',
   ''mouse'', ''touchscreen'', ''screen'', ''download'', ''upload'', ''send'', ''receive'',
   ''share'', ''forward'', ''save'', ''delete'', ''copy'', ''paste'', ''cut'', ''undo'',
   ''redo'', ''search'', ''browse'', ''navigate'', ''surf'', ''explore'', ''connect'',
   ''disconnect'', ''login'', ''logout'', ''signin'', ''signout'', ''charge'', ''battery'',
   ''power'', ''switch'', ''button'', ''press'', ''iron'', ''fold'', ''hang'', ''dry'',
   ''wash'', ''rinse'', ''spin'', ''load'', ''unload'', ''sort'', ''separate'',
   ''organize'', ''decorate'', ''arrange'', ''rearrange'', ''place'', ''position'',
   ''plug'', ''unplug'', ''connect'', ''disconnect'', ''light'', ''switch'', ''dim'',
   ''brighten'', ''heat'', ''cool'', ''warm'', ''freeze'', ''thaw'', ''lock'', ''unlock'',
   ''secure'', ''protect'', ''guard'', ''shop'', ''browse'', ''select'', ''choose'',
   ''pick'', ''decide'', ''buy'', ''purchase'', ''order'', ''checkout'', ''pay'',
   ''bargain'', ''negotiate'', ''discount'', ''sale'', ''offer'', ''return'', ''exchange'',
   ''refund'', ''complain'', ''pack'', ''wrap'', ''bag'', ''box'', ''deliver'', ''read'',
   ''write'', ''spell'', ''pronounce'', ''recite'', ''memorize'', ''remember'', ''recall'',
   ''review'', ''revise'', ''solve'', ''calculate'', ''compute'', ''add'', ''subtract'',
   ''multiply'', ''divide'', ''count'', ''measure'', ''experiment'', ''test'', ''observe'',
   ''record'', ''note'', ''present'', ''demonstrate'', ''explain'', ''clarify'',
   ''illustrate'', ''question'', ''query'', ''inquire'', ''investigate'', ''research'',
   ''meet'', ''greet'', ''welcome'', ''introduce'', ''present'', ''shake hands'', ''hug'',
   ''kiss'', ''embrace'', ''pat'', ''smile'', ''laugh'', ''giggle'', ''grin'', ''chuckle'',
   ''cry'', ''weep'', ''sob'', ''tear'', ''sad'', ''angry'', ''mad'', ''furious'',
   ''upset'', ''irritated'', ''happy'', ''joyful'', ''cheerful'', ''excited'',
   ''thrilled'', ''surprised'', ''shocked'', ''amazed'', ''astonished'', ''confused'',
   ''puzzled'', ''uncertain'', ''doubtful'', ''board'', ''embark'', ''disembark'',
   ''alight'', ''exit'', ''accelerate'', ''brake'', ''stop'', ''park'', ''reverse'',
   ''steer'', ''navigate'', ''direct'', ''guide'', ''lead'', ''travel'', ''journey'',
   ''commute'', ''transport'', ''transfer'', ''fly'', ''sail'', ''cruise'', ''voyage'',
   ''navigate'']"

definition ISLTRANSLATE_VOCABULARY :: "string list" where
  "ISLTRANSLATE_VOCABULARY =
  [''plant'', ''sow'', ''seed'', ''grow'', ''cultivate'', ''farm'', ''plow'', ''till'',
   ''dig'', ''hoe'', ''rake'', ''weed'', ''water'', ''irrigate'', ''spray'', ''fertilize'',
   ''compost'', ''harvest'', ''reap'', ''gather'', ''collect'', ''pick'', ''prune'',
   ''trim'', ''cut'', ''crop'', ''thresh'', ''build'', ''construct'', ''erect'', ''raise'',
   ''assemble'', ''demolish'', ''destroy'', ''dismantle'', ''tear down'', ''dig'',
   ''excavate'', ''drill'', ''bore'', ''tunnel'', ''pour'', ''concrete'', ''cement'',
   ''plaster'', ''paint'', ''hammer'', ''nail'', ''screw'', ''bolt'', ''weld'', ''saw'',
   ''cut'', ''drill'', ''sand'', ''polish'', ''measure'', ''level'', ''align'', ''square'',
   ''plumb'', ''recycle'', ''reuse'', ''reduce'', ''conserve'', ''preserve'', ''pollute'',
   ''contaminate'', ''dirty'', ''clean'', ''purify'', ''plant'', ''tree'', ''garden'',
   ''landscape'', ''green'', ''protect'', ''conserve'', ''save'', ''guard'', ''defend'',
   ''earn'', ''make'', ''gain'', ''profit'', ''income'', ''spend'', ''pay'', ''purchase'',
   ''buy'', ''invest'', ''save'', ''deposit'', ''withdraw'', ''transfer'', ''send'',
   ''borrow'', ''lend'', ''loan'', ''credit'', ''debt'', ''budget'', ''plan'',
   ''calculate'', ''account'', ''balance'', ''sue'', ''prosecute'', ''defend'', ''argue'',
   ''plead'', ''judge'', ''rule'', ''decide'', ''verdict'', ''sentence'', ''arrest'',
   ''detain'', ''custody'', ''jail'', ''prison'', ''fine'', ''penalty'', ''punish'',
   ''reward'', ''compensate'']"

definition action_mappings_items :: "(string \<times> string) list" where
  "action_mappings_items =
  [(''evacuate'', ''run''), (''rescue'', ''carry''), (''distribute'', ''give''),
   (''deploy'', ''send''), (''search'', ''look''), (''alert'', ''call''),
   (''warn'', ''wave''), (''emergency'', ''run''), (''danger'', ''stop''),
   (''safe'', ''protect''), (''shelter'', ''house''), (''relief'', ''help''),
   (''aid'', ''give''), (''support'', ''hold''), (''assist'', ''help''),
   (''protect'', ''guard''), (''injured'', ''fall''), (''injury'', ''hurt''),
   (''medical'', ''hospital''), (''medicine'', ''pill''), (''treat'', ''care''),
   (''flood'', ''water''), (''earthquake'', ''shake''), (''fire'', ''burn''),
   (''storm'', ''wind''), (''cyclone'', ''spin''), (''tsunami'', ''wave''),
   (''landslide'', ''fall''), (''disaster'', ''break''), (''crisis'', ''problem''),
   (''victim'', ''person''), (''survivor'', ''person''), (''damage'', ''break''),
   (''destroy'', ''break''), (''rebuild'', ''build''), (''recover'', ''heal''),
   (''walk'', ''walk''), (''run'', ''run''), (''jog'', ''run''), (''sprint'', ''run''),
   (''jump'', ''jump''), (''leap'', ''jump''), (''hop'', ''jump''), (''skip'', ''jump''),
   (''sit'', ''sit''), (''stand'', ''stand''), (''lie'', ''sleep''), (''kneel'', ''bow''),
   (''crouch'', ''bend''), (''bend'', ''bow''), (''bow'', ''bow''),
   (''stretch'', ''reach''), (''crawl'', ''move''), (''climb'', ''up''),
   (''descend'', ''down''), (''ascend'', ''up''), (''swim'', ''swim''),
   (''dive'', ''jump''), (''float'', ''swim''), (''fly'', ''fly''), (''drive'', ''car''),
   (''ride'', ''bike''), (''pedal'', ''cycle''), (''roll'', ''turn''),
   (''spin'', ''turn''), (''rotate'', ''turn''), (''twist'', ''turn''),
   (''turn'', ''turn''), (''slide'', ''move''), (''slip'', ''fall''), (''fall'', ''fall''),
   (''trip'', ''fall''), (''stumble'', ''fall''), (''push'', ''push''),
   (''pull'', ''pull''), (''lift'', ''carry''), (''carry'', ''carry''),
   (''hold'', ''hold''), (''grab'', ''take''), (''grasp'', ''hold''), (''grip'', ''hold''),
   (''release'', ''open''), (''drop'', ''fall''), (''throw'', ''throw''),
   (''toss'', ''throw''), (''catch'', ''catch''), (''hit'', ''strike''),
   (''strike'', ''hit''), (''punch'', ''hit''), (''slap'', ''hit''), (''clap'', ''clap''),
   (''point'', ''show''), (''wave'', ''wave''), (''shake'', ''shake''),
   (''touch'', ''touch''), (''feel'', ''touch''), (''scratch'', ''rub''),
   (''rub'', ''rub''), (''pat'', ''touch''), (''tap'', ''touch''), (''poke'', ''touch''),
   (''squeeze'', ''press''), (''pinch'', ''hold''), (''tear'', ''break''),
   (''fold'', ''fold''), (''unfold'', ''open''), (''open'', ''open''),
   (''close'', ''close''), (''lock'', ''lock''), (''unlock'', ''open''),
   (''eat'', ''eat''), (''drink'', ''drink''), (''cook'', ''cook''), (''bake'', ''cook''),
   (''fry'', ''cook''), (''boil'', ''cook''), (''steam'', ''cook''), (''grill'', ''cook''),
   (''clean'', ''wash''), (''wash'', ''wash''), (''wipe'', ''clean''),
   (''scrub'', ''wash''), (''sweep'', ''clean''), (''mop'', ''clean''),
   (''vacuum'', ''clean''), (''dust'', ''clean''), (''bath'', ''wash''),
   (''shower'', ''wash''), (''brush'', ''brush''), (''comb'', ''brush''),
   (''shave'', ''cut''), (''dress'', ''wear''), (''wear'', ''put''),
   (''remove'', ''take''), (''read'', ''read''), (''write'', ''write''),
   (''draw'', ''draw''), (''paint'', ''draw''), (''sketch'', ''draw''),
   (''color'', ''draw''), (''erase'', ''delete''), (''study'', ''learn''),
   (''learn'', ''learn''), (''teach'', ''teach''), (''explain'', ''show''),
   (''demonstrate'', ''show''), (''practice'', ''do''), (''work'', ''work''),
   (''type'', ''write''), (''calculate'', ''think''), (''measure'', ''check''),
   (''weigh'', ''measure''), (''count'', ''count''), (''talk'', ''speak''),
   (''speak'', ''speak''), (''say'', ''speak''), (''tell'', ''speak''), (''ask'', ''ask''),
   (''answer'', ''reply''), (''question'', ''ask''), (''reply'', ''answer''),
   (''call'', ''phone''), (''text'', ''write''), (''email'', ''write''),
   (''message'', ''send''), (''chat'', ''talk''), (''discuss'', ''talk''),
   (''argue'', ''fight''), (''debate'', ''talk''), (''listen'', ''hear''),
   (''hear'', ''hear''), (''watch'', ''see''), (''see'', ''look''), (''look'', ''see''),
   (''observe'', ''watch''), (''examine'', ''check''), (''inspect'', ''check''),
   (''understand'', ''know''), (''comprehend'', ''know''), (''interpret'', ''think''),
   (''translate'', ''change''), (''sign'', ''gesture''), (''gesture'', ''show''),
   (''indicate'', ''point''), (''signal'', ''wave''), (''express'', ''show''),
   (''communicate'', ''talk''), (''play'', ''play''), (''exercise'', ''move''),
   (''train'', ''practice''), (''compete'', ''fight''), (''race'', ''run''),
   (''win'', ''celebrate''), (''lose'', ''sad''), (''kick'', ''kick''),
   (''dribble'', ''move''), (''pass'', ''throw''), (''shoot'', ''throw''),
   (''score'', ''goal''), (''defend'', ''block''), (''attack'', ''fight''),
   (''bat'', ''hit''), (''bowl'', ''throw''), (''field'', ''catch''),
   (''pitch'', ''throw''), (''serve'', ''throw''), (''volley'', ''hit''),
   (''smash'', ''hit''), (''rally'', ''play''), (''box'', ''fight''),
   (''wrestle'', ''fight''), (''fight'', ''fight''), (''yoga'', ''balance''),
   (''meditate'', ''sit''), (''balance'', ''stand''), (''pose'', ''stand''),
   (''build'', ''make''), (''construct'', ''build''), (''assemble'', ''join''),
   (''install'', ''put''), (''repair'', ''fix''), (''fix'', ''repair''),
   (''maintain'', ''check''), (''design'', ''plan''), (''plan'', ''think''),
   (''organize'', ''arrange''), (''arrange'', ''order''), (''prepare'', ''make''),
   (''setup'', ''arrange''), (''operate'', ''use''), (''control'', ''manage''),
   (''manage'', ''lead''), (''supervise'', ''watch''), (''coordinate'', ''organize''),
   (''produce'', ''make''), (''manufacture'', ''make''), (''create'', ''make''),
   (''make'', ''make''), (''craft'', ''make''), (''sell'', ''give''), (''buy'', ''take''),
   (''trade'', ''exchange''), (''exchange'', ''swap''), (''purchase'', ''buy''),
   (''pay'', ''give''), (''receive'', ''take''), (''deliver'', ''bring''),
   (''transport'', ''carry''), (''load'', ''put''), (''unload'', ''take''),
   (''pack'', ''wrap''), (''unpack'', ''open''), (''inventory'', ''count''),
   (''stock'', ''store''), (''supply'', ''give''), (''allocate'', ''divide''),
   (''diagnose'', ''check''), (''examine'', ''look''), (''check'', ''see''),
   (''test'', ''try''), (''scan'', ''look''), (''cure'', ''heal''), (''heal'', ''fix''),
   (''recover'', ''improve''), (''rehabilitate'', ''exercise''), (''inject'', ''needle''),
   (''vaccinate'', ''inject''), (''medicate'', ''medicine''), (''prescribe'', ''write''),
   (''dose'', ''give''), (''bandage'', ''wrap''), (''stitch'', ''sew''),
   (''operate'', ''cut''), (''surgery'', ''operate''), (''temperature'', ''hot''),
   (''pressure'', ''push''), (''pulse'', ''heart''), (''heartbeat'', ''heart''),
   (''cough'', ''sick''), (''sneeze'', ''blow''), (''vomit'', ''sick''),
   (''bleed'', ''blood''), (''hurt'', ''pain''), (''pain'', ''hurt''),
   (''ache'', ''pain''), (''chop'', ''cut''), (''cut'', ''cut''), (''slice'', ''cut''),
   (''dice'', ''cut''), (''mince'', ''cut''), (''shred'', ''tear''), (''grate'', ''rub''),
   (''peel'', ''remove''), (''skin'', ''remove''), (''core'', ''remove''),
   (''pit'', ''remove''), (''seed'', ''remove''), (''mix'', ''stir''), (''stir'', ''mix''),
   (''blend'', ''mix''), (''whisk'', ''stir''), (''beat'', ''mix''),
   (''knead'', ''press''), (''shape'', ''form''), (''form'', ''make''),
   (''mold'', ''shape''), (''season'', ''add''), (''salt'', ''sprinkle''),
   (''pepper'', ''sprinkle''), (''spice'', ''add''), (''flavor'', ''taste''),
   (''taste'', ''eat''), (''roast'', ''cook''), (''broil'', ''cook''),
   (''toast'', ''cook''), ((''saut'' @ [CHR 0xC3, CHR 0xA9]), ''fry''),
   (''simmer'', ''boil''), (''poach'', ''boil''), (''blanch'', ''boil''),
   (''serve'', ''give''), (''plate'', ''put''), (''garnish'', ''decorate''),
   (''present'', ''show''), (''click'', ''press''), (''tap'', ''touch''),
   (''swipe'', ''move''), (''scroll'', ''move''), (''zoom'', ''enlarge''),
   (''keyboard'', ''type''), (''mouse'', ''point''), (''touchscreen'', ''touch''),
   (''screen'', ''see''), (''download'', ''receive''), (''upload'', ''send''),
   (''send'', ''give''), (''share'', ''give''), (''forward'', ''send''),
   (''save'', ''keep''), (''delete'', ''remove''), (''copy'', ''duplicate''),
   (''paste'', ''put''), (''undo'', ''reverse''), (''redo'', ''repeat''),
   (''search'', ''find''), (''browse'', ''look''), (''navigate'', ''go''),
   (''surf'', ''browse''), (''explore'', ''discover''), (''connect'', ''join''),
   (''disconnect'', ''separate''), (''login'', ''enter''), (''logout'', ''exit''),
   (''signin'', ''enter''), (''signout'', ''leave''), (''charge'', ''power''),
   (''battery'', ''energy''), (''power'', ''on''), (''switch'', ''toggle''),
   (''button'', ''press''), (''press'', ''push''), (''iron'', ''press''),
   (''hang'', ''suspend''), (''dry'', ''remove''), (''rinse'', ''wash''),
   (''spin'', ''rotate''), (''sort'', ''separate''), (''separate'', ''divide''),
   (''decorate'', ''beautify''), (''rearrange'', ''move''), (''place'', ''put''),
   (''position'', ''place''), (''plug'', ''connect''), (''unplug'', ''disconnect''),
   (''light'', ''shine''), (''dim'', ''darken''), (''brighten'', ''light''),
   (''heat'', ''warm''), (''cool'', ''cold''), (''warm'', ''heat''),
   (''freeze'', ''cold''), (''thaw'', ''melt''), (''secure'', ''protect''),
   (''guard'', ''protect''), (''shop'', ''buy''), (''browse'', ''look''),
   (''select'', ''choose''), (''choose'', ''pick''), (''pick'', ''select''),
   (''decide'', ''choose''), (''order'', ''request''), (''checkout'', ''pay''),
   (''bargain'', ''negotiate''), (''negotiate'', ''discuss''), (''discount'', ''reduce''),
   (''sale'', ''sell''), (''offer'', ''give''), (''return'', ''give''),
   (''refund'', ''return''), (''complain'', ''protest''), (''wrap'', ''cover''),
   (''bag'', ''pack''), (''box'', ''pack''), (''spell'', ''write''),
   (''pronounce'', ''say''), (''recite'', ''speak''), (''memorize'', ''remember''),
   (''remember'', ''recall''), (''recall'', ''think''), (''review'', ''check''),
   (''revise'', ''change''), (''solve'', ''answer''), (''compute'', ''calculate''),
   (''add'', ''plus''), (''subtract'', ''minus''), (''multiply'', ''times''),
   (''divide'', ''split''), (''experiment'', ''test''), (''record'', ''write''),
   (''note'', ''write''), (''clarify'', ''explain''), (''illustrate'', ''show''),
   (''query'', ''ask''), (''inquire'', ''ask''), (''investigate'', ''examine''),
   (''research'', ''study''), (''meet'', ''greet''), (''greet'', ''hello''),
   (''welcome'', ''greet''), (''introduce'', ''present''), (''hug'', ''embrace''),
   (''kiss'', ''love''), (''embrace'', ''hold''), (''smile'', ''happy''),
   (''laugh'', ''happy''), (''giggle'', ''laugh''), (''grin'', ''smile''),
   (''chuckle'', ''laugh''), (''cry'', ''sad''), (''weep'', ''cry''), (''sob'', ''cry''),
   (''tear'', ''sad''), (''sad'', ''unhappy''), (''angry'', ''mad''), (''mad'', ''angry''),
   (''furious'', ''angry''), (''upset'', ''sad''), (''irritated'', ''annoyed''),
   (''happy'', ''joy''), (''joyful'', ''happy''), (''cheerful'', ''happy''),
   (''excited'', ''enthusiastic''), (''thrilled'', ''excited''),
   (''surprised'', ''shock''), (''shocked'', ''surprise''), (''amazed'', ''wonder''),
   (''astonished'', ''surprised''), (''confused'', ''puzzled''),
   (''puzzled'', ''confused''), (''uncertain'', ''doubt''), (''doubtful'', ''unsure''),
   (''board'', ''enter''), (''embark'', ''board''), (''disembark'', ''exit''),
   (''alight'', ''descend''), (''exit'', ''leave''), (''accelerate'', ''quick''),
   (''brake'', ''stop''), (''stop'', ''halt''), (''park'', ''stop''),
   (''reverse'', ''backward''), (''steer'', ''direct''), (''direct'', ''guide''),
   (''guide'', ''lead''), (''lead'', ''direct''), (''travel'', ''journey''),
   (''journey'', ''go''), (''commute'', ''travel''), (''transfer'', ''change''),
   (''sail'', ''boat''), (''cruise'', ''sail''), (''voyage'', ''travel''),
   (''plant'', ''sow''), (''sow'', ''plant''), (''seed'', ''plant''),
   (''grow'', ''develop''), (''cultivate'', ''farm''), (''farm'', ''work''),
   (''plow'', ''dig''), (''till'', ''plow''), (''dig'', ''excavate''), (''hoe'', ''dig''),
   (''rake'', ''gather''), (''weed'', ''remove''), (''water'', ''pour''),
   (''irrigate'', ''water''), (''spray'', ''sprinkle''), (''fertilize'', ''feed''),
   (''compost'', ''fertilize''), (''harvest'', ''gather''), (''reap'', ''harvest''),
   (''gather'', ''collect''), (''collect'', ''gather''), (''prune'', ''cut''),
   (''trim'', ''cut''), (''crop'', ''harvest''), (''thresh'', ''separate''),
   (''demolish'', ''destroy''), (''dismantle'', ''take''), (''excavate'', ''dig''),
   (''drill'', ''bore''), (''bore'', ''drill''), (''tunnel'', ''dig''),
   (''pour'', ''flow''), (''concrete'', ''build''), (''cement'', ''join''),
   (''plaster'', ''cover''), (''hammer'', ''hit''), (''nail'', ''fasten''),
   (''screw'', ''turn''), (''bolt'', ''fasten''), (''weld'', ''join''), (''saw'', ''cut''),
   (''sand'', ''smooth''), (''polish'', ''shine''), (''level'', ''balance''),
   (''align'', ''straight''), (''square'', ''measure''), (''plumb'', ''straight''),
   (''recycle'', ''reuse''), (''reuse'', ''again''), (''reduce'', ''less''),
   (''conserve'', ''save''), (''preserve'', ''keep''), (''pollute'', ''dirty''),
   (''contaminate'', ''pollute''), (''dirty'', ''soil''), (''purify'', ''clean''),
   (''tree'', ''plant''), (''garden'', ''grow''), (''landscape'', ''beautify''),
   (''green'', ''plant''), (''earn'', ''make''), (''gain'', ''receive''),
   (''profit'', ''gain''), (''income'', ''earn''), (''spend'', ''use''),
   (''invest'', ''put''), (''deposit'', ''put''), (''withdraw'', ''take''),
   (''borrow'', ''loan''), (''lend'', ''give''), (''loan'', ''lend''),
   (''credit'', ''borrow''), (''debt'', ''owe''), (''budget'', ''plan''),
   (''account'', ''record''), (''balance'', ''equal''), (''sue'', ''prosecute''),
   (''prosecute'', ''accuse''), (''defend'', ''protect''), (''plead'', ''beg''),
   (''judge'', ''decide''), (''rule'', ''judge''), (''decide'', ''choose''),
   (''verdict'', ''decision''), (''sentence'', ''punish''), (''arrest'', ''catch''),
   (''detain'', ''hold''), (''custody'', ''jail''), (''jail'', ''prison''),
   (''prison'', ''lock''), (''fine'', ''penalty''), (''penalty'', ''punish''),
   (''punish'', ''discipline''), (''reward'', ''prize''), (''compensate'', ''pay'')]"

definition categories :: "(string \<times> string list) list" where
  "categories =
  [(''Disaster Management'',
     [''evacuate'', ''rescue'', ''distribute'', ''deploy'', ''search'', ''alert'',
      ''warn'', ''emergency'', ''danger'', ''safe'', ''shelter'', ''relief'']),
   (''Movement Actions'',
     [''walk'', ''run'', ''jump'', ''sit'', ''stand'', ''climb'', ''swim'', ''fly'',
      ''drive'', ''ride'', ''jog'', ''sprint'', ''leap'']),
   (''Hand Actions'',
     [''push'', ''pull'', ''lift'', ''carry'', ''hold'', ''grab'', ''throw'', ''catch'',
      ''touch'', ''point'', ''wave'', ''shake'']),
   (''Daily Activities'',
     [''eat'', ''drink'', ''cook'', ''clean'', ''wash'', ''read'', ''write'', ''study'',
      ''work'', ''play'', ''brush'', ''bath'']),
   (''Communication'',
     [''talk'', ''speak'', ''listen'', ''watch'', ''call'', ''text'', ''email'', ''sign'',
      ''gesture'', ''ask'', ''answer'']),
   (''Sports & Exercise'',
     [''exercise'', ''kick'', ''bat'', ''serve'', ''box'', ''wrestle'', ''yoga'',
      ''meditate'', ''train'', ''race'']),
   (''Professional'',
     [''build'', ''repair'', ''operate'', ''manage'', ''produce'', ''sell'', ''deliver'',
      ''inventory'', ''design'', ''plan'']),
   (''Medical'',
     [''diagnose'', ''examine'', ''treat'', ''inject'', ''bandage'', ''operate'',
      ''measure'', ''cough'', ''heal'', ''cure'']),
   (''Food Preparation'',
     [''chop'', ''cut'', ''mix'', ''stir'', ''bake'', ''fry'', ''boil'', ''serve'',
      ''slice'', ''peel'']),
   (''Technology'',
     [''click'', ''type'', ''download'', ''save'', ''search'', ''connect'', ''charge'',
      ''upload'', ''delete'', ''browse'']),
   (''Household'',
     [''iron'', ''fold'', ''hang'', ''load'', ''decorate'', ''plug'', ''heat'', ''lock'',
      ''sweep'', ''mop'']),
   (''Shopping'',
     [''shop'', ''browse'', ''buy'', ''bargain'', ''return'', ''pack'', ''select'',
      ''choose'', ''pay'']),
   (''Education'',
     [''spell'', ''memorize'', ''solve'', ''experiment'', ''present'', ''research'',
      ''learn'', ''teach'', ''practice'']),
   (''Social'',
     [''meet'', ''greet'', ''smile'', ''laugh'', ''cry'', ''hug'', ''kiss'', ''welcome'',
      ''introduce'']),
   (''Transportation'',
     [''board'', ''accelerate'', ''brake'', ''steer'', ''travel'', ''sail'', ''exit'',
      ''park'', ''commute'']),
   (''Agricultural'',
     [''plant'', ''plow'', ''water'', ''harvest'', ''prune'', ''grow'', ''cultivate'',
      ''seed'']),
   (''Construction'',
     [''construct'', ''demolish'', ''drill'', ''hammer'', ''saw'', ''measure'', ''weld'',
      ''nail'']),
   (''Environmental'',
     [''recycle'', ''conserve'', ''pollute'', ''plant'', ''protect'', ''preserve'',
      ''reduce'', ''reuse'']),
   (''Financial'',
     [''earn'', ''spend'', ''save'', ''borrow'', ''budget'', ''invest'', ''pay'',
      ''receive'']),
   (''Legal'',
     [''sue'', ''judge'', ''arrest'', ''fine'', ''prosecute'', ''defend'', ''rule''])]"

text \<open>
  A dict literal keeps, for a key written twice, the value written last
  (\<open>'search'\<close>, \<open>'tap'\<close>, \<open>'seed'\<close> and eleven more keys of \<open>action_mappings\<close>).
\<close>

definition dict_of_items :: "('k \<times> 'v) list \<Rightarrow> ('k \<rightharpoonup> 'v)" where
  "dict_of_items items = fold (\<lambda>(k, v) m. m(k \<mapsto> v)) items Map.empty"

text \<open>
  The same lookup as one pass over the items, remembering the last value seen for the
  key. It is equal to the lookup in \<open>dict_of_items\<close> (lemma \<open>dict_of_items_lookup\<close>
  below) and is what the tables are evaluated with.
\<close>

fun lookup_last :: "('k \<times> 'v) list \<Rightarrow> 'k \<Rightarrow> 'v option \<Rightarrow> 'v option" where
  "lookup_last [] k found = found"
| "lookup_last ((k', v) # items) k found =
     lookup_last items k (if k' = k then Some v else found)"

definition action_mappings :: "string \<rightharpoonup> string" where
  "action_mappings = dict_of_items action_mappings_items"

text \<open>
  \<open>for category, words in categories.items(): for word in words:
  word_to_category[word] = category\<close>: a word listed under two categories keeps the later one.
\<close>

definition word_to_category_of ::
  "(string \<times> string list) list \<Rightarrow> (string \<rightharpoonup> string)" where
  "word_to_category_of cats =
     fold (\<lambda>(category, words) m. fold (\<lambda>word m'. m'(word \<mapsto> category)) words m)
       cats Map.empty"

definition word_to_category :: "string \<rightharpoonup> string" where
  "word_to_category = word_to_category_of categories"

definition all_words :: "string set" where
  "all_words = set (CISLR_VOCABULARY @ INCLUDE_VOCABULARY @ ISLTRANSLATE_VOCABULARY)"

section \<open>The action resolver, the example synthesizer and the variant expander\<close>

text \<open>
  The body of the loop of \<open>generate_action_dataset\<close>, one definition for each local
  variable it computes: \<open>base_word\<close>, \<open>sign_action\<close> (before and after the validation
  against \<open>AVAILABLE_SIGNS\<close>), \<open>sov_example\<close>. The inventory and the two tables are
  parameters, so that the resolver can be examined on any of them.
\<close>

definition base_word :: "string \<Rightarrow> string" where
  "base_word w =
     replace (replace (replace (replace w ''ing'' '''') ''ed'' '''') ''es'' '''') ''s'' ''''"

definition mapped_action :: "(string \<rightharpoonup> string) \<Rightarrow> string \<Rightarrow> string" where
  "mapped_action mappings w =
     (case mappings w of
        Some a \<Rightarrow> a
      | None \<Rightarrow> (case mappings (base_word w) of Some a \<Rightarrow> a | None \<Rightarrow> lower w))"

definition sign_action :: "string set \<Rightarrow> (string \<rightharpoonup> string) \<Rightarrow> string \<Rightarrow> string" where
  "sign_action AVAILABLE_SIGNS mappings w =
     (if lower (mapped_action mappings w) \<notin> AVAILABLE_SIGNS then
        (if lower w \<in> AVAILABLE_SIGNS then lower w
         else if lower (base_word w) \<in> AVAILABLE_SIGNS then lower (base_word w)
         else if ''do'' \<in> AVAILABLE_SIGNS then ''do'' else ''work'')
      else mapped_action mappings w)"

definition category_of :: "(string \<rightharpoonup> string) \<Rightarrow> string \<Rightarrow> string" where
  "category_of w2c w = (case w2c w of Some c \<Rightarrow> c | None \<Rightarrow> ''General'')"

definition sov_example :: "string \<Rightarrow> string \<Rightarrow> string" where
  "sov_example w cat =
     (if cat = ''Disaster Management'' then ''I people '' @ w
      else if cat \<in> set [''Movement Actions'', ''Hand Actions''] then ''I now '' @ w
      else if str_in ''Daily'' cat \<or> str_in ''Activities'' cat then ''I '' @ w @ '' do''
      else ''I '' @ w)"

record DatasetRow =
  word :: string
  sign :: string
  sovExample :: string
  category :: string

definition base_row ::
  "string set \<Rightarrow> (string \<rightharpoonup> string) \<Rightarrow> (string \<rightharpoonup> string) \<Rightarrow> string \<Rightarrow> DatasetRow" where
  "base_row AVAILABLE_SIGNS mappings w2c w =
     \<lparr>word = w, sign = sign_action AVAILABLE_SIGNS mappings w,
      sovExample = sov_example w (category_of w2c w), category = category_of w2c w\<rparr>"

definition ing_row ::
  "string set \<Rightarrow> (string \<rightharpoonup> string) \<Rightarrow> (string \<rightharpoonup> string) \<Rightarrow> string \<Rightarrow> DatasetRow" where
  "ing_row AVAILABLE_SIGNS mappings w2c w =
     \<lparr>word = (if \<not> endswith w ''e'' then w @ ''ing'' else butlast w @ ''ing''),
      sign = sign_action AVAILABLE_SIGNS mappings w,
      sovExample = ''I '' @ w @ ''ing am'', category = category_of w2c w\<rparr>"

definition ed_row ::
  "string set \<Rightarrow> (string \<rightharpoonup> string) \<Rightarrow> (string \<rightharpoonup> string) \<Rightarrow> string \<Rightarrow> DatasetRow" where
  "ed_row AVAILABLE_SIGNS mappings w2c w =
     \<lparr>word = (if \<not> endswith w ''e'' then w @ ''ed'' else w @ ''d''),
      sign = sign_action AVAILABLE_SIGNS mappings w,
      sovExample = ''I yesterday '' @ w @ ''ed'', category = category_of w2c w\<rparr>"

text \<open>The rows one iteration of the loop appends to \<open>dataset\<close>, in the order of the appends.\<close>

definition rows_for_word ::
  "string set \<Rightarrow> (string \<rightharpoonup> string) \<Rightarrow> (string \<rightharpoonup> string) \<Rightarrow> string \<Rightarrow> DatasetRow list" where
  "rows_for_word AVAILABLE_SIGNS mappings w2c w =
     [base_row AVAILABLE_SIGNS mappings w2c w]
     @ (if \<not> endswith w ''ing'' then [ing_row AVAILABLE_SIGNS mappings w2c w] else [])
     @ (if \<not> endswith w ''ed'' then [ed_row AVAILABLE_SIGNS mappings w2c w] else [])"

fun generate_loop ::
  "string set \<Rightarrow> (string \<rightharpoonup> string) \<Rightarrow> (string \<rightharpoonup> string) \<Rightarrow> DatasetRow list \<Rightarrow> string list
   \<Rightarrow> DatasetRow list" where
  "generate_loop AVAILABLE_SIGNS mappings w2c dataset [] = dataset"
| "generate_loop AVAILABLE_SIGNS mappings w2c dataset (w # ws) =
     generate_loop AVAILABLE_SIGNS mappings w2c
       (dataset @ rows_for_word AVAILABLE_SIGNS mappings w2c w) ws"

text \<open>
  \<open>all_words\<close> is a Python set, and a set of strings is iterated in an order that changes
  from run to run (string hashing is seeded per process). The order of one run is the
  parameter \<open>iteration\<close>, one of the \<open>iteration_orders\<close> of the set; \<open>sorted\<close> is a stable
  sort of what the iteration yields.
\<close>

definition iteration_orders :: "'a set \<Rightarrow> 'a list set" where
  "iteration_orders S = {xs. distinct xs \<and> set xs = S}"

definition generate_action_dataset :: "string set \<Rightarrow> string list \<Rightarrow> DatasetRow list" where
  "generate_action_dataset AVAILABLE_SIGNS iteration =
     generate_loop AVAILABLE_SIGNS action_mappings word_to_category [] (sort iteration)"


section \<open>The exporters\<close>

text \<open>
  What \<open>json.dump\<close>, \<open>csv.DictWriter\<close> and the f-strings write, as the bytes of the
  file. \<open>str.join\<close> and \<open>str(n)\<close> first.
\<close>

fun join :: "string \<Rightarrow> string list \<Rightarrow> string" where
  "join sep [] = []"
| "join sep [x] = x"
| "join sep (x # y # ys) = x @ sep @ join sep (y # ys)"

definition digit_char :: "nat \<Rightarrow> char" where
  "digit_char d = char_of (of_char CHR ''0'' + d)"

fun str_of_nat :: "nat \<Rightarrow> string" where
  "str_of_nat n =
     (if n < 10 then [digit_char n] else str_of_nat (n div 10) @ [digit_char (n mod 10)])"

subsection \<open>\<open>json.dump(dataset, f, indent=2, ensure_ascii=False)\<close>\<close>

text \<open>
  The values the generator hands to \<open>json.dump\<close> are lists, dicts and strings. With
  \<open>ensure_ascii=False\<close> a string is written as it is between double quotes, except for
  the backslash, the double quote and the control characters below \<open>0x20\<close>.
\<close>

datatype json = JString string | JArray "json list" | JObject "(string \<times> json) list"

definition hex_digit :: "nat \<Rightarrow> char" where
  "hex_digit d = (if d < 10 then digit_char d else char_of (of_char CHR ''a'' + (d - 10)))"

definition json_escape_char :: "char \<Rightarrow> string" where
  "json_escape_char c =
     (if c = CHR 0x5C then [CHR 0x5C, CHR 0x5C]
      else if c = CHR 0x22 then [CHR 0x5C, CHR 0x22]
      else if c = CHR 0x08 then [CHR 0x5C, CHR ''b'']
      else if c = CHR 0x0C then [CHR 0x5C, CHR ''f'']
      else if c = CHR 0x0A then [CHR 0x5C, CHR ''n'']
      else if c = CHR 0x0D then [CHR 0x5C, CHR ''r'']
      else if c = CHR 0x09 then [CHR 0x5C, CHR ''t'']
      else if of_char c < (32::nat) then
        [CHR 0x5C] @ ''u00'' @ [hex_digit (of_char c div 16), hex_digit (of_char c mod 16)]
      else [c])"

definition json_string :: "string \<Rightarrow> string" where
  "json_string s = [CHR 0x22] @ concat (map json_escape_char s) @ [CHR 0x22]"

definition newline_indent :: "nat \<Rightarrow> string" where
  "newline_indent level = CHR 0x0A # replicate (2 * level) CHR '' ''"

fun json_encode :: "nat \<Rightarrow> json \<Rightarrow> string" where
  "json_encode level (JString s) = json_string s"
| "json_encode level (JArray xs) =
     (if xs = [] then ''[]''
      else ''['' @ newline_indent (level + 1)
           @ join ('','' @ newline_indent (level + 1)) (map (json_encode (level + 1)) xs)
           @ newline_indent level @ '']'')"
| "json_encode level (JObject kvs) =
     (if kvs = [] then ''{}''
      else ''{'' @ newline_indent (level + 1)
           @ join ('','' @ newline_indent (level + 1))
               (map (\<lambda>(k, v). json_string k @ '': '' @ json_encode (level + 1) v) kvs)
           @ newline_indent level @ ''}'')"

text \<open>A row is the dict literal of the generator: four keys, in the order they are written.\<close>

definition row_dict :: "DatasetRow \<Rightarrow> (string \<times> string) list" where
  "row_dict r =
     [(''word'', word r), (''sign'', sign r), (''sovExample'', sovExample r),
      (''category'', category r)]"

definition dataset_json :: "DatasetRow list \<Rightarrow> json" where
  "dataset_json dataset =
     JArray (map (\<lambda>r. JObject (map (\<lambda>(k, v). (k, JString v)) (row_dict r))) dataset)"

definition export_to_json :: "DatasetRow list \<Rightarrow> string" where
  "export_to_json dataset = json_encode 0 (dataset_json dataset)"

subsection \<open>\<open>csv.DictWriter\<close>, dialect \<open>excel\<close>\<close>

text \<open>
  The writer quotes a field that holds the delimiter, the quote character or a character
  of the line terminator, doubling the quotes inside; a record of one empty field is
  written as two quotes. Every record ends with \<open>\r\n\<close> (the file is opened with
  \<open>newline=''\<close>, so nothing is translated).
\<close>

definition csv_special :: "char \<Rightarrow> bool" where
  "csv_special c \<longleftrightarrow> c = CHR '','' \<or> c = CHR 0x22 \<or> c = CHR 0x0D \<or> c = CHR 0x0A"

definition csv_field :: "string \<Rightarrow> string" where
  "csv_field f =
     (if list_ex csv_special f
      then [CHR 0x22] @ concat (map (\<lambda>c. if c = CHR 0x22 then [c, c] else [c]) f) @ [CHR 0x22]
      else f)"

definition csv_writerow :: "string list \<Rightarrow> string" where
  "csv_writerow record =
     (if record = [[]] then [CHR 0x22, CHR 0x22] else join '','' (map csv_field record))
     @ [CHR 0x0D, CHR 0x0A]"

definition fieldnames :: "string list" where
  "fieldnames = [''word'', ''sign'', ''sovExample'', ''category'']"

text \<open>
  \<open>DictWriter._dict_to_list\<close>: the values of the row under the field names, in their
  order. A row of the generator has these four keys and no other, so the check for extra
  keys never raises.
\<close>

definition dict_to_list :: "(string \<times> string) list \<Rightarrow> string list" where
  "dict_to_list rowdict =
     map (\<lambda>key. case map_of rowdict key of Some v \<Rightarrow> v | None \<Rightarrow> []) fieldnames"

definition csv_records :: "DatasetRow list \<Rightarrow> string list list" where
  "csv_records dataset = fieldnames # map (\<lambda>r. dict_to_list (row_dict r)) dataset"

definition export_to_csv :: "DatasetRow list \<Rightarrow> string" where
  "export_to_csv dataset = concat (map csv_writerow (csv_records dataset))"

subsection \<open>The generated TypeScript source\<close>

definition ts_entry :: "DatasetRow \<Rightarrow> string" where
  "ts_entry entry =
     ''  { word: '' @ [CHR 0x27] @ word entry @ [CHR 0x27]
     @ '', sign: '' @ [CHR 0x27] @ sign entry @ [CHR 0x27]
     @ '', sovExample: '' @ [CHR 0x27] @ sovExample entry @ [CHR 0x27]
     @ '', category: '' @ [CHR 0x27] @ category entry @ [CHR 0x27]
     @ '' },'' @ [CHR 0x0A]"

definition generate_typescript_dataset :: "DatasetRow list \<Rightarrow> string" where
  "generate_typescript_dataset dataset =
     ''// Auto-generated ISL Dataset'' @ [CHR 0x0A]
     @ ''// Total entries: '' @ str_of_nat (length dataset) @ [CHR 0x0A]
     @ ''// Sources: CISLR (~4,700), INCLUDE (~4,287), ISLTranslate (~31k)'' @ [CHR 0x0A]
     @ [CHR 0x0A]
     @ ''export const ISL_DATASET = ['' @ [CHR 0x0A]
     @ concat (map ts_entry dataset)
     @ ''];'' @ [CHR 0x0A]"

subsection \<open>Reading the exported texts back\<close>

text \<open>
  What the two files contain is what the readers of the same libraries find in them:
  \<open>csv.reader\<close> on the tabular file and \<open>json.load\<close> on the structured one.

  \<open>csv.reader\<close> (dialect \<open>excel\<close>, not strict) is the state machine of the \<open>csv\<close> module.
  The file, opened with \<open>newline=''\<close>, is taken line by line: a line ends after \<open>\n\<close>,
  after \<open>\r\n\<close>, after a \<open>\r\<close> that no \<open>\n\<close> follows, and at the end of the text. The
  parser is given the characters of a line (\<open>Some c\<close>) and then the end of the line
  (\<open>None\<close>); a record is complete when the end of a line leaves the parser in
  \<open>START_RECORD\<close>. The limit on the size of a field is not modelled.
\<close>

datatype csv_state =
  START_RECORD | START_FIELD | IN_FIELD | IN_QUOTED_FIELD | QUOTE_IN_QUOTED_FIELD | EAT_CRNL
  | CSV_ERROR

definition csv_newline :: "char \<Rightarrow> bool" where
  "csv_newline c \<longleftrightarrow> c = CHR 0x0A \<or> c = CHR 0x0D"

text \<open>
  The parser holds its state, the characters of the field it is in and the fields of the
  record it is in. \<open>CSV_ERROR\<close> stands for the exception the parser raises on a character
  after a line break inside one line, which the line splitting never lets happen.
\<close>

fun parse_process_char ::
  "csv_state \<times> string \<times> string list \<Rightarrow> char option \<Rightarrow> csv_state \<times> string \<times> string list" where
  "parse_process_char (START_RECORD, fld, flds) None = (START_RECORD, fld, flds)"
| "parse_process_char (START_RECORD, fld, flds) (Some c) =
     (if csv_newline c then (EAT_CRNL, fld, flds)
      else if c = CHR 0x22 then (IN_QUOTED_FIELD, fld, flds)
      else if c = CHR '','' then (START_FIELD, [], flds @ [fld])
      else (IN_FIELD, fld @ [c], flds))"
| "parse_process_char (START_FIELD, fld, flds) None = (START_RECORD, [], flds @ [fld])"
| "parse_process_char (START_FIELD, fld, flds) (Some c) =
     (if csv_newline c then (EAT_CRNL, [], flds @ [fld])
      else if c = CHR 0x22 then (IN_QUOTED_FIELD, fld, flds)
      else if c = CHR '','' then (START_FIELD, [], flds @ [fld])
      else (IN_FIELD, fld @ [c], flds))"
| "parse_process_char (IN_FIELD, fld, flds) None = (START_RECORD, [], flds @ [fld])"
| "parse_process_char (IN_FIELD, fld, flds) (Some c) =
     (if csv_newline c then (EAT_CRNL, [], flds @ [fld])
      else if c = CHR '','' then (START_FIELD, [], flds @ [fld])
      else (IN_FIELD, fld @ [c], flds))"
| "parse_process_char (IN_QUOTED_FIELD, fld, flds) None = (IN_QUOTED_FIELD, fld, flds)"
| "parse_process_char (IN_QUOTED_FIELD, fld, flds) (Some c) =
     (if c = CHR 0x22 then (QUOTE_IN_QUOTED_FIELD, fld, flds)
      else (IN_QUOTED_FIELD, fld @ [c], flds))"
| "parse_process_char (QUOTE_IN_QUOTED_FIELD, fld, flds) None =
     (START_RECORD, [], flds @ [fld])"
| "parse_process_char (QUOTE_IN_QUOTED_FIELD, fld, flds) (Some c) =
     (if c = CHR 0x22 then (IN_QUOTED_FIELD, fld @ [c], flds)
      else if c = CHR '','' then (START_FIELD, [], flds @ [fld])
      else if csv_newline c then (EAT_CRNL, [], flds @ [fld])
      else (IN_FIELD, fld @ [c], flds))"
| "parse_process_char (EAT_CRNL, fld, flds) None = (START_RECORD, fld, flds)"
| "parse_process_char (EAT_CRNL, fld, flds) (Some c) =
     (if csv_newline c then (EAT_CRNL, fld, flds) else (CSV_ERROR, fld, flds))"
| "parse_process_char (CSV_ERROR, fld, flds) e = (CSV_ERROR, fld, flds)"

text \<open>
  The reader: where it is in the line, the parser, and the records returned so far. At
  the end of a line the parser is given \<open>None\<close>; if that leaves it in \<open>START_RECORD\<close> the
  fields are returned as a record and the parser is reset.
\<close>

datatype line_state = LINE_START | IN_LINE | AFTER_CR

type_synonym csv_reader_state =
  "line_state \<times> (csv_state \<times> string \<times> string list) \<times> string list list"

definition end_of_line ::
  "(csv_state \<times> string \<times> string list) \<times> string list list
   \<Rightarrow> (csv_state \<times> string \<times> string list) \<times> string list list" where
  "end_of_line pr =
     (case parse_process_char (fst pr) None of
        (START_RECORD, fld, flds) \<Rightarrow> ((START_RECORD, [], []), snd pr @ [flds])
      | p \<Rightarrow> (p, snd pr))"

definition reader_char :: "csv_reader_state \<Rightarrow> char \<Rightarrow> csv_reader_state" where
  "reader_char rs c =
     (case rs of (ls, p, records) \<Rightarrow>
        (case (if ls = AFTER_CR \<and> c \<noteq> CHR 0x0A then end_of_line (p, records)
               else (p, records)) of
           (p1, records1) \<Rightarrow>
             (if c = CHR 0x0A then
                (case end_of_line (parse_process_char p1 (Some c), records1) of
                   (p2, records2) \<Rightarrow> (LINE_START, p2, records2))
              else if c = CHR 0x0D then (AFTER_CR, parse_process_char p1 (Some c), records1)
              else (IN_LINE, parse_process_char p1 (Some c), records1))))"

text \<open>
  At the end of the text the line that is open is ended. A record that is still open
  then (the text stopped inside a quoted field) is returned with the field as it is.
\<close>

definition reader_finish :: "csv_reader_state \<Rightarrow> string list list option" where
  "reader_finish rs =
     (case rs of (ls, p, records) \<Rightarrow>
        (case (if ls = LINE_START then (p, records) else end_of_line (p, records)) of
           ((st, fld, flds), records1) \<Rightarrow>
             if st = CSV_ERROR then None
             else if fld \<noteq> [] \<or> st = IN_QUOTED_FIELD then Some (records1 @ [flds @ [fld]])
             else Some records1))"

definition csv_reader :: "string \<Rightarrow> string list list option" where
  "csv_reader s = reader_finish (foldl reader_char (LINE_START, (START_RECORD, [], []), []) s)"

text \<open>
  \<open>csv.DictReader\<close> names the fields of a record by the header. The pairs of word and
  sign the tabular file holds are what it gives, record by record, under \<open>word\<close> and
  \<open>sign\<close>.
\<close>

definition csv_word_sign :: "string \<Rightarrow> (string option \<times> string option) list option" where
  "csv_word_sign s =
     (case csv_reader s of
        None \<Rightarrow> None
      | Some [] \<Rightarrow> None
      | Some (header # records) \<Rightarrow>
          Some (map (\<lambda>record. (dict_of_items (zip header record) ''word'',
                               dict_of_items (zip header record) ''sign'')) records))"

text \<open>
  \<open>json.load\<close>, on the documents that are an array of objects whose members are strings;
  on any other text the result is \<open>None\<close>, which here also stands for the numbers, the
  literals and the nestings that the decoder accepts and the exporter never writes. The
  scanner skips white space between the tokens and decodes a string as the decoder does
  (strict: no raw control character); a \<open>\u\<close> escape is decoded when it is below \<open>0x80\<close>.
\<close>

datatype json_token = LBRACKET | RBRACKET | LBRACE | RBRACE | COMMA | COLON | STRING string

datatype scan_mode = OUTSIDE | IN_STRING | AFTER_BACKSLASH | IN_UNICODE "nat list"

definition json_whitespace :: "char \<Rightarrow> bool" where
  "json_whitespace c \<longleftrightarrow> c = CHR '' '' \<or> c = CHR 0x09 \<or> c = CHR 0x0A \<or> c = CHR 0x0D"

definition json_unescape :: "char \<Rightarrow> char option" where
  "json_unescape c =
     (if c = CHR 0x22 then Some (CHR 0x22)
      else if c = CHR 0x5C then Some (CHR 0x5C)
      else if c = CHR ''/'' then Some (CHR ''/'')
      else if c = CHR ''b'' then Some (CHR 0x08)
      else if c = CHR ''f'' then Some (CHR 0x0C)
      else if c = CHR ''n'' then Some (CHR 0x0A)
      else if c = CHR ''r'' then Some (CHR 0x0D)
      else if c = CHR ''t'' then Some (CHR 0x09)
      else None)"

definition hex_value :: "char \<Rightarrow> nat option" where
  "hex_value c =
     (if CHR ''0'' \<le> c \<and> c \<le> CHR ''9'' then Some (of_char c - of_char CHR ''0'')
      else if CHR ''a'' \<le> c \<and> c \<le> CHR ''f'' then Some (of_char c - of_char CHR ''a'' + 10)
      else if CHR ''A'' \<le> c \<and> c \<le> CHR ''F'' then Some (of_char c - of_char CHR ''A'' + 10)
      else None)"

fun json_scan :: "scan_mode \<Rightarrow> string \<Rightarrow> json_token list \<Rightarrow> string \<Rightarrow> json_token list option" where
  "json_scan OUTSIDE acc toks [] = Some toks"
| "json_scan IN_STRING acc toks [] = None"
| "json_scan AFTER_BACKSLASH acc toks [] = None"
| "json_scan (IN_UNICODE ds) acc toks [] = None"
| "json_scan OUTSIDE acc toks (c # cs) =
     (if json_whitespace c then json_scan OUTSIDE acc toks cs
      else if c = CHR ''['' then json_scan OUTSIDE acc (toks @ [LBRACKET]) cs
      else if c = CHR '']'' then json_scan OUTSIDE acc (toks @ [RBRACKET]) cs
      else if c = CHR ''{'' then json_scan OUTSIDE acc (toks @ [LBRACE]) cs
      else if c = CHR ''}'' then json_scan OUTSIDE acc (toks @ [RBRACE]) cs
      else if c = CHR '','' then json_scan OUTSIDE acc (toks @ [COMMA]) cs
      else if c = CHR '':'' then json_scan OUTSIDE acc (toks @ [COLON]) cs
      else if c = CHR 0x22 then json_scan IN_STRING [] toks cs
      else None)"
| "json_scan IN_STRING acc toks (c # cs) =
     (if c = CHR 0x22 then json_scan OUTSIDE [] (toks @ [STRING acc]) cs
      else if c = CHR 0x5C then json_scan AFTER_BACKSLASH acc toks cs
      else if of_char c < (32::nat) then None
      else json_scan IN_STRING (acc @ [c]) toks cs)"
| "json_scan AFTER_BACKSLASH acc toks (c # cs) =
     (if c = CHR ''u'' then json_scan (IN_UNICODE []) acc toks cs
      else (case json_unescape c of
              Some d \<Rightarrow> json_scan IN_STRING (acc @ [d]) toks cs
            | None \<Rightarrow> None))"
| "json_scan (IN_UNICODE ds) acc toks (c # cs) =
     (case hex_value c of
        None \<Rightarrow> None
      | Some v \<Rightarrow>
          if length ds < 3 then json_scan (IN_UNICODE (ds @ [v])) acc toks cs
          else if foldl (\<lambda>n d. 16 * n + d) 0 (ds @ [v]) < 128
          then json_scan IN_STRING
                 (acc @ [char_of (foldl (\<lambda>n d. 16 * n + d) 0 (ds @ [v]))]) toks cs
          else None)"

text \<open>
  The objects of the array, token by token: the state says which token may come next, and
  holds the members of the object being read (last first) and the objects read. Each
  object is returned as its members in the order of the text.
\<close>

datatype rows_state =
  DOC_START | AFTER_LBRACKET | AFTER_LBRACE | AFTER_KEY string | AFTER_COLON string
  | AFTER_VALUE | AFTER_MEMBER_COMMA | AFTER_OBJECT | AFTER_OBJECT_COMMA

fun json_rows ::
  "rows_state \<Rightarrow> (string \<times> string) list \<Rightarrow> (string \<times> string) list list \<Rightarrow> json_token list
   \<Rightarrow> (string \<times> string) list list option" where
  "json_rows DOC_START ms rows (LBRACKET # ts) = json_rows AFTER_LBRACKET ms rows ts"
| "json_rows AFTER_LBRACKET ms rows (RBRACKET # ts) = (if ts = [] then Some rows else None)"
| "json_rows AFTER_LBRACKET ms rows (LBRACE # ts) = json_rows AFTER_LBRACE [] rows ts"
| "json_rows AFTER_LBRACE ms rows (RBRACE # ts) = json_rows AFTER_OBJECT [] (rows @ [[]]) ts"
| "json_rows AFTER_LBRACE ms rows (STRING k # ts) = json_rows (AFTER_KEY k) ms rows ts"
| "json_rows (AFTER_KEY k) ms rows (COLON # ts) = json_rows (AFTER_COLON k) ms rows ts"
| "json_rows (AFTER_COLON k) ms rows (STRING v # ts) =
     json_rows AFTER_VALUE ((k, v) # ms) rows ts"
| "json_rows AFTER_VALUE ms rows (COMMA # ts) = json_rows AFTER_MEMBER_COMMA ms rows ts"
| "json_rows AFTER_VALUE ms rows (RBRACE # ts) =
     json_rows AFTER_OBJECT [] (rows @ [rev ms]) ts"
| "json_rows AFTER_MEMBER_COMMA ms rows (STRING k # ts) = json_rows (AFTER_KEY k) ms rows ts"
| "json_rows AFTER_OBJECT ms rows (COMMA # ts) = json_rows AFTER_OBJECT_COMMA ms rows ts"
| "json_rows AFTER_OBJECT ms rows (RBRACKET # ts) = (if ts = [] then Some rows else None)"
| "json_rows AFTER_OBJECT_COMMA ms rows (LBRACE # ts) = json_rows AFTER_LBRACE [] rows ts"
| "json_rows st ms rows ts = None"

definition json_load :: "string \<Rightarrow> (string \<times> string) list list option" where
  "json_load s =
     (case json_scan OUTSIDE [] [] s of
        None \<Rightarrow> None
      | Some toks \<Rightarrow> json_rows DOC_START [] [] toks)"

definition json_word_sign :: "string \<Rightarrow> (string option \<times> string option) list option" where
  "json_word_sign s =
     (case json_load s of
        None \<Rightarrow> None
      | Some objects \<Rightarrow>
          Some (map (\<lambda>obj. (dict_of_items obj ''word'', dict_of_items obj ''sign'')) objects))"

text \<open>The tokens of the object the structured export writes for a row.\<close>

definition row_tokens :: "DatasetRow \<Rightarrow> json_token list" where
  "row_tokens r =
     [LBRACE, STRING ''word'', COLON, STRING (word r), COMMA,
      STRING ''sign'', COLON, STRING (sign r), COMMA,
      STRING ''sovExample'', COLON, STRING (sovExample r), COMMA,
      STRING ''category'', COLON, STRING (category r), RBRACE]"


section \<open>The stem as the specification words it\<close>

text \<open>
  The specification describes the stem as the word with the trailing \<open>ing\<close>, \<open>ed\<close>, \<open>es\<close>,
  \<open>s\<close> stripped. \<open>strip_trailing_suffixes\<close> is that reading, written from the
  specification and not from the source, to be compared with \<open>base_word\<close>.
\<close>

definition strip_suffix :: "string \<Rightarrow> string \<Rightarrow> string" where
  "strip_suffix suf s = (if endswith s suf then take (length s - length suf) s else s)"

definition strip_trailing_suffixes :: "string \<Rightarrow> string" where
  "strip_trailing_suffixes w =
     strip_suffix ''s'' (strip_suffix ''es'' (strip_suffix ''ed'' (strip_suffix ''ing'' w)))"


section \<open>Properties of the loader, the resolver and the loop\<close>


lemma lower_char_idem: "lower_char (lower_char c) = lower_char c"
  by (auto simp: lower_char_def less_eq_char_def)

lemma lower_idem: "lower (lower s) = lower s"
  by (simp add: lower_def lower_char_idem)

lemma lower_Nil_iff: "lower s = [] \<longleftrightarrow> s = []"
  by (simp add: lower_def)

lemma stem_not_Nil: "endswith name ''.sigml'' \<Longrightarrow> stem name \<noteq> []"
proof -
  assume "endswith name ''.sigml''"
  then have "name \<noteq> []"
    by (auto simp: endswith_def suffix_def)
  then show ?thesis
    by (auto simp: stem_def Let_def)
qed

lemma available_signs_not_Nil: "[] \<notin> load_available_signs sign_dir"
proof
  assume "[] \<in> load_available_signs sign_dir"
  then obtain names f where "f \<in> set (glob_sigml names)" and "lower (stem f) = []"
    by (auto simp: load_available_signs_def split: option.splits)
  then show False
    by (simp add: glob_sigml_def lower_Nil_iff stem_not_Nil)
qed

lemma available_signs_lower: "a \<in> load_available_signs sign_dir \<Longrightarrow> lower a = a"
  by (auto simp: load_available_signs_def lower_idem split: option.splits)

lemma fold_update_lookup:
  "fold (\<lambda>(k, v) m. m(k \<mapsto> v)) items m k = lookup_last items k (m k)"
  by (induction items arbitrary: m) (auto split: prod.splits)

lemma dict_of_items_lookup: "dict_of_items items k = lookup_last items k None"
  by (simp add: dict_of_items_def fold_update_lookup)

lemma lookup_last_in_items:
  "lookup_last items k found = Some v \<Longrightarrow> (k, v) \<in> set items \<or> found = Some v"
proof (induction items arbitrary: found)
  case Nil
  then show ?case by simp
next
  case (Cons p items)
  obtain k' v' where p: "p = (k', v')" by (cases p)
  from Cons.prems have "lookup_last items k (if k' = k then Some v' else found) = Some v"
    by (simp add: p)
  from Cons.IH [OF this] show ?case
    by (auto simp: p split: if_splits)
qed

lemma dict_of_items_in_items: "dict_of_items items k = Some v \<Longrightarrow> (k, v) \<in> set items"
  using lookup_last_in_items [of items k None v] by (simp add: dict_of_items_lookup)

lemma fold_words_update:
  "fold (\<lambda>w m'. m'(w \<mapsto> c)) ws m = fold (\<lambda>(k, v) m. m(k \<mapsto> v)) (map (\<lambda>w. (w, c)) ws) m"
  by (induction ws arbitrary: m) simp_all

lemma fold_categories_update:
  "fold (\<lambda>(c, ws) m. fold (\<lambda>w m'. m'(w \<mapsto> c)) ws m) cats m
   = fold (\<lambda>(k, v) m. m(k \<mapsto> v)) (concat (map (\<lambda>(c, ws). map (\<lambda>w. (w, c)) ws) cats)) m"
  by (induction cats arbitrary: m) (auto simp: fold_words_update)

lemma word_to_category_of_lookup:
  "word_to_category_of cats w
   = lookup_last (concat (map (\<lambda>(c, ws). map (\<lambda>w. (w, c)) ws) cats)) w None"
  by (simp add: word_to_category_of_def fold_categories_update fold_update_lookup)

lemma mapped_action_evacuate: "mapped_action action_mappings ''evacuate'' = ''run''"
  by (simp add: mapped_action_def action_mappings_def dict_of_items_lookup
      action_mappings_items_def)

lemma generate_loop_concat:
  "generate_loop A m c dataset ws = dataset @ concat (map (rows_for_word A m c) ws)"
  by (induction ws arbitrary: dataset) simp_all

lemma sign_action_empty: "sign_action {} m w = ''work''"
  by (simp add: sign_action_def)

lemma word_rows_for_word:
  "map word (rows_for_word A m c w) = map word (rows_for_word B m' c' w)"
  by (simp add: rows_for_word_def base_row_def ing_row_def ed_row_def)

lemma sign_rows_for_word:
  "r \<in> set (rows_for_word A m c w) \<Longrightarrow> sign r = sign_action A m w"
  by (auto simp: rows_for_word_def base_row_def ing_row_def ed_row_def split: if_splits)

lemma base_row_in_rows: "base_row A m c w \<in> set (rows_for_word A m c w)"
  by (simp add: rows_for_word_def)

text \<open>
  Claim C1, as the code has it. A missing asset directory, or one without a \<open>.sigml\<close>
  file, gives the empty inventory. With the empty inventory the validation rejects every
  action the map resolved and every row carries the placeholder \<open>work\<close>; the words of
  the rows are those of any other inventory, in the same order, and every word of the
  vocabulary has a row: no row is dropped.
\<close>

theorem empty_inventory_every_sign_work:
  "load_available_signs None = {}
   \<and> load_available_signs (Some (filter (\<lambda>n. \<not> endswith n ''.sigml'') names)) = {}
   \<and> (\<forall>r \<in> set (generate_action_dataset {} iteration). sign r = ''work'')
   \<and> map word (generate_action_dataset {} iteration)
       = map word (generate_action_dataset A iteration)
   \<and> (\<forall>w \<in> set iteration. \<exists>r \<in> set (generate_action_dataset {} iteration). word r = w)"
proof -
  have "load_available_signs (Some (filter (\<lambda>n. \<not> endswith n ''.sigml'') names)) = {}"
    by (simp add: load_available_signs_def glob_sigml_def)
  moreover have "\<forall>r \<in> set (generate_action_dataset {} iteration). sign r = ''work''"
    by (auto simp: generate_action_dataset_def generate_loop_concat sign_action_empty
        dest: sign_rows_for_word)
  moreover have "map word (generate_action_dataset {} iteration)
       = map word (generate_action_dataset A iteration)"
  proof -
    have "(\<lambda>w. map word (rows_for_word {} action_mappings word_to_category w))
          = (\<lambda>w. map word (rows_for_word A action_mappings word_to_category w))"
      by (rule ext) (rule word_rows_for_word)
    then show ?thesis
      by (simp add: generate_action_dataset_def generate_loop_concat map_concat comp_def)
  qed
  moreover have "\<exists>r \<in> set (generate_action_dataset {} iteration). word r = w"
    if "w \<in> set iteration" for w
  proof -
    have "base_row {} action_mappings word_to_category w
            \<in> set (generate_action_dataset {} iteration)"
      using that base_row_in_rows [of "{}" action_mappings word_to_category w]
      by (auto simp: generate_action_dataset_def generate_loop_concat)
    then show ?thesis
      by (rule bexI [rotated]) (simp add: base_row_def)
  qed
  ultimately show ?thesis
    by (simp add: load_available_signs_def)
qed

theorem empty_inventory_every_sign_work_witness:
  "''walk'' \<in> set [''walk'']
   \<and> base_row {} action_mappings word_to_category ''walk''
        \<in> set (generate_action_dataset {} [''walk''])
   \<and> sign (base_row {} action_mappings word_to_category ''walk'') = ''work''
   \<and> (\<exists>r \<in> set (generate_action_dataset {} [''walk'']). word r = ''walk'')"
proof -
  have "base_row {} action_mappings word_to_category ''walk''
          \<in> set (generate_action_dataset {} [''walk''])"
    by (simp add: generate_action_dataset_def rows_for_word_def)
  with empty_inventory_every_sign_work [of "[]" "[''walk'']" "{}"] show ?thesis
    by simp
qed

text \<open>
  With the empty inventory the action the map gives for \<open>evacuate\<close>, which is \<open>run\<close>,
  does not survive the validation: the row carries \<open>work\<close>.
\<close>

theorem empty_inventory_map_only_counterexample:
  "load_available_signs None = {}
   \<and> mapped_action action_mappings ''evacuate'' = ''run''
   \<and> sign_action (load_available_signs None) action_mappings ''evacuate'' = ''work''
   \<and> sign_action (load_available_signs None) action_mappings ''evacuate''
       \<noteq> mapped_action action_mappings ''evacuate''"
proof -
  show ?thesis
    by (simp add: mapped_action_evacuate load_available_signs_def sign_action_empty)
qed


section \<open>The resolver scenario and the variant rows\<close>


lemma lower_char_bit5:
  "lower_char (Char b0 b1 b2 b3 b4 True b6 b7) = Char b0 b1 b2 b3 b4 True b6 b7"
  by (auto simp: lower_char_def)

lemma load_run_do: "load_available_signs (Some [''run.sigml'', ''do.sigml'']) = {''run'', ''do''}"
  by (auto simp: load_available_signs_def glob_sigml_def stem_def Let_def endswith_def
      suffix_to_prefix lower_def lower_char_bit5)

lemma base_word_xyz123: "base_word ''xyz123'' = ''xyz123''"
  by (simp add: base_word_def replace_def)

text \<open>
  Claim C4. With the inventory \<open>{run, do}\<close> and any map that sends \<open>evacuate\<close> to
  \<open>run\<close>, the resolver gives \<open>run\<close> for \<open>evacuate\<close>; for \<open>xyz123\<close>, which the map does
  not hold (the stem of \<open>xyz123\<close> is \<open>xyz123\<close> itself) and which no asset matches, it
  gives \<open>do\<close>.
\<close>

theorem resolver_scenario:
  assumes "mappings ''evacuate'' = Some ''run''" and "mappings ''xyz123'' = None"
  shows "sign_action {''run'', ''do''} mappings ''evacuate'' = ''run''
         \<and> sign_action {''run'', ''do''} mappings ''xyz123'' = ''do''"
  using assms
  by (simp add: sign_action_def mapped_action_def base_word_xyz123 lower_def lower_char_bit5)

theorem resolver_scenario_witness:
  "[''evacuate'' \<mapsto> ''run''] ''evacuate'' = Some ''run''
   \<and> [''evacuate'' \<mapsto> ''run''] ''xyz123'' = None
   \<and> load_available_signs (Some [''run.sigml'', ''do.sigml'']) = {''run'', ''do''}
   \<and> sign_action {''run'', ''do''} [''evacuate'' \<mapsto> ''run''] ''evacuate'' = ''run''
   \<and> sign_action {''run'', ''do''} [''evacuate'' \<mapsto> ''run''] ''xyz123'' = ''do''"
  using resolver_scenario [of "[''evacuate'' \<mapsto> ''run'']"] load_run_do
  by simp

lemma endswith_rev: "endswith w s \<longleftrightarrow> prefix (rev s) (rev w)"
  by (simp add: endswith_def suffix_to_prefix)

lemma endswith_ing: 
  assumes "endswith w ''ing''" shows "\<not> endswith w ''ed'' \<and> \<not> endswith w ''e''"
proof -
  from assms obtain u where "rev w = ''gni'' @ u"
    by (auto simp: endswith_rev prefix_def)
  then show ?thesis by (simp add: endswith_rev)
qed

lemma endswith_ed:
  assumes "endswith w ''ed''" shows "\<not> endswith w ''ing'' \<and> \<not> endswith w ''e''"
proof -
  from assms obtain u where "rev w = ''de'' @ u"
    by (auto simp: endswith_rev prefix_def)
  then show ?thesis by (simp add: endswith_rev)
qed

lemma endswith_e:
  assumes "endswith w ''e''" shows "\<not> endswith w ''ing'' \<and> \<not> endswith w ''ed''"
proof -
  from assms obtain u where "rev w = ''e'' @ u"
    by (auto simp: endswith_rev prefix_def)
  then show ?thesis by (simp add: endswith_rev)
qed

lemma endswith_e_butlast: "endswith w ''e'' \<Longrightarrow> butlast w @ ''e'' = w"
  by (auto simp: endswith_def suffix_def)

lemma length_sov_example:
  "length (sov_example w cat) \<in> {length w + 2, length w + 5, length w + 6, length w + 9}"
  by (simp add: sov_example_def)

lemma sov_example_not_ing: "sov_example w cat \<noteq> ''I '' @ w @ ''ing am''"
proof
  assume "sov_example w cat = ''I '' @ w @ ''ing am''"
  then have "length (sov_example w cat) = length w + 8" by simp
  with length_sov_example [of w cat] show False by auto
qed

lemma sov_example_not_ed: "sov_example w cat \<noteq> ''I yesterday '' @ w @ ''ed''"
proof
  assume "sov_example w cat = ''I yesterday '' @ w @ ''ed''"
  then have "length (sov_example w cat) = length w + 14" by simp
  with length_sov_example [of w cat] show False by auto
qed

lemma ing_not_ed: "''I '' @ w @ ''ing am'' \<noteq> ''I yesterday '' @ w @ ''ed''"
proof
  assume "''I '' @ w @ ''ing am'' = ''I yesterday '' @ w @ ''ed''"
  then have "length (''I '' @ w @ ''ing am'') = length (''I yesterday '' @ w @ ''ed'')"
    by (rule arg_cong)
  then show False by simp
qed

text \<open>
  Claim C6. A word that ends in \<open>ing\<close> gets its base row and its \<open>-ed\<close> row only: no
  row of it has the word or the example with a second \<open>ing\<close>. A word that ends in \<open>ed\<close>
  gets its base row and its \<open>-ing\<close> row only: no row of it has a second \<open>ed\<close>.
\<close>

theorem no_double_suffix:
  "(endswith w ''ing'' \<longrightarrow>
      rows_for_word A m c w = [base_row A m c w, ed_row A m c w]
      \<and> (\<forall>r \<in> set (rows_for_word A m c w).
            word r \<noteq> w @ ''ing'' \<and> sovExample r \<noteq> ''I '' @ w @ ''ing am''))
   \<and> (endswith w ''ed'' \<longrightarrow>
      rows_for_word A m c w = [base_row A m c w, ing_row A m c w]
      \<and> (\<forall>r \<in> set (rows_for_word A m c w).
            word r \<noteq> w @ ''ed'' \<and> sovExample r \<noteq> ''I yesterday '' @ w @ ''ed''))"
proof (intro conjI impI)
  assume e: "endswith w ''ing''"
  then show rows: "rows_for_word A m c w = [base_row A m c w, ed_row A m c w]"
    using endswith_ing [OF e] by (simp add: rows_for_word_def)
  show "\<forall>r \<in> set (rows_for_word A m c w).
          word r \<noteq> w @ ''ing'' \<and> sovExample r \<noteq> ''I '' @ w @ ''ing am''"
    using endswith_ing [OF e] ing_not_ed [of w, symmetric]
      sov_example_not_ing [of w "category_of c w"]
    by (simp add: rows base_row_def ed_row_def)
next
  assume e: "endswith w ''ed''"
  then show rows: "rows_for_word A m c w = [base_row A m c w, ing_row A m c w]"
    using endswith_ed [OF e] by (simp add: rows_for_word_def)
  show "\<forall>r \<in> set (rows_for_word A m c w).
          word r \<noteq> w @ ''ed'' \<and> sovExample r \<noteq> ''I yesterday '' @ w @ ''ed''"
    using endswith_ed [OF e] ing_not_ed [of w]
      sov_example_not_ed [of w "category_of c w"]
    by (simp add: rows base_row_def ing_row_def)
qed

theorem no_double_suffix_witness:
  "endswith ''seed'' ''ed''
   \<and> map word (rows_for_word {} action_mappings word_to_category ''seed'')
       = [''seed'', ''seeding'']
   \<and> endswith ''walking'' ''ing''
   \<and> map word (rows_for_word {} action_mappings word_to_category ''walking'')
       = [''walking'', ''walkinged'']"
proof -
  have 1: "endswith ''seed'' ''ed''" and 2: "endswith ''walking'' ''ing''"
    by (simp_all add: endswith_rev)
  from 1 no_double_suffix [of "''seed''" "{}" action_mappings word_to_category]
  have "rows_for_word {} action_mappings word_to_category ''seed''
        = [base_row {} action_mappings word_to_category ''seed'',
           ing_row {} action_mappings word_to_category ''seed'']"
    by blast
  moreover from 2 no_double_suffix [of "''walking''" "{}" action_mappings word_to_category]
  have "rows_for_word {} action_mappings word_to_category ''walking''
        = [base_row {} action_mappings word_to_category ''walking'',
           ed_row {} action_mappings word_to_category ''walking'']"
    by blast
  ultimately show ?thesis
    using 1 2 by (simp add: base_row_def ing_row_def ed_row_def endswith_rev)
qed

text \<open>
  Claim C3, as the code has it. Unless the word already ends in \<open>ing\<close>, the loop emits
  an \<open>-ing\<close> row whose word drops a trailing \<open>e\<close> before \<open>ing\<close>; unless the word already
  ends in \<open>ed\<close>, it emits an \<open>-ed\<close> row whose word appends \<open>ed\<close>, or only \<open>d\<close> after a
  trailing \<open>e\<close>, which is kept (the same as dropping the \<open>e\<close> and appending \<open>ed\<close>).
  Both rows carry the sign of the base row, and the three examples differ from one
  another.
\<close>

theorem variant_rows:
  "(\<not> endswith w ''ing'' \<longrightarrow> ing_row A m c w \<in> set (rows_for_word A m c w))
   \<and> (\<not> endswith w ''ed'' \<longrightarrow> ed_row A m c w \<in> set (rows_for_word A m c w))
   \<and> base_row A m c w \<in> set (rows_for_word A m c w)
   \<and> word (base_row A m c w) = w
   \<and> word (ing_row A m c w) = (if endswith w ''e'' then butlast w @ ''ing'' else w @ ''ing'')
   \<and> word (ed_row A m c w) = (if endswith w ''e'' then w @ ''d'' else w @ ''ed'')
   \<and> (endswith w ''e'' \<longrightarrow> word (ed_row A m c w) = butlast w @ ''ed'')
   \<and> sign (ing_row A m c w) = sign (base_row A m c w)
   \<and> sign (ed_row A m c w) = sign (base_row A m c w)
   \<and> distinct [sovExample (base_row A m c w), sovExample (ing_row A m c w),
                 sovExample (ed_row A m c w)]"
proof -
  have "endswith w ''e'' \<longrightarrow> word (ed_row A m c w) = butlast w @ ''ed''"
    using endswith_e_butlast [of w] by (auto simp: ed_row_def)
  moreover have "distinct [sovExample (base_row A m c w), sovExample (ing_row A m c w),
                 sovExample (ed_row A m c w)]"
    using sov_example_not_ing [of w "category_of c w"]
      sov_example_not_ed [of w "category_of c w"] ing_not_ed [of w]
    by (simp add: base_row_def ing_row_def ed_row_def)
  ultimately show ?thesis
    by (simp add: rows_for_word_def base_row_def ing_row_def ed_row_def)
qed

theorem variant_rows_witness:
  "\<not> endswith ''bake'' ''ing'' \<and> \<not> endswith ''bake'' ''ed'' \<and> endswith ''bake'' ''e''
   \<and> ing_row {} action_mappings word_to_category ''bake''
        \<in> set (rows_for_word {} action_mappings word_to_category ''bake'')
   \<and> ed_row {} action_mappings word_to_category ''bake''
        \<in> set (rows_for_word {} action_mappings word_to_category ''bake'')
   \<and> word (ing_row {} action_mappings word_to_category ''bake'') = ''baking''
   \<and> word (ed_row {} action_mappings word_to_category ''bake'') = ''baked''"
  using variant_rows [of "''bake''" "{}" action_mappings word_to_category]
  by (simp add: endswith_rev)

text \<open>
  For \<open>bake\<close> the \<open>-ed\<close> row has the word \<open>baked\<close>: no row has \<open>bakd\<close>, the word with the
  \<open>e\<close> dropped and \<open>d\<close> appended. For \<open>seed\<close> there is no \<open>-ed\<close> row at all.
\<close>

theorem ed_variant_counterexample:
  "map word (rows_for_word {} action_mappings word_to_category ''bake'')
     = [''bake'', ''baking'', ''baked'']
   \<and> butlast ''bake'' @ ''d'' = ''bakd''
   \<and> ''bakd'' \<notin> set (map word (rows_for_word {} action_mappings word_to_category ''bake''))
   \<and> map word (rows_for_word {} action_mappings word_to_category ''seed'')
     = [''seed'', ''seeding'']"
  by (simp add: rows_for_word_def base_row_def ing_row_def ed_row_def endswith_rev)

lemma category_of_walk: "category_of word_to_category ''walk'' = ''Movement Actions''"
  by (simp add: category_of_def word_to_category_def word_to_category_of_lookup
      categories_def)

text \<open>
  Claim C7. The example is a function of the word and the category alone, one fixed
  template for each group of categories. \<open>walk\<close> is in the category \<open>Movement Actions\<close>
  and its base row has the example \<open>I now walk\<close>; its \<open>-ing\<close> row has \<open>I walking am\<close>.
\<close>

theorem sov_example_templates:
  "category_of word_to_category ''walk'' = ''Movement Actions''
   \<and> sov_example ''walk'' ''Movement Actions'' = ''I now walk''
   \<and> map sovExample (rows_for_word A action_mappings word_to_category ''walk'')
       = [''I now walk'', ''I walking am'', ''I yesterday walked'']
   \<and> sov_example w ''Disaster Management'' = ''I people '' @ w
   \<and> sov_example w ''Movement Actions'' = ''I now '' @ w
   \<and> sov_example w ''Hand Actions'' = ''I now '' @ w
   \<and> sov_example w ''Daily Activities'' = ''I '' @ w @ '' do''
   \<and> sov_example w ''General'' = ''I '' @ w"
  by (simp add: category_of_walk rows_for_word_def base_row_def ing_row_def ed_row_def
      endswith_rev sov_example_def str_in_def sublist_code)


section \<open>The stem\<close>


lemma subseq_replace_scan: "subseq (replace_scan old [] s) s"
proof (induction old "[] :: string" s rule: replace_scan.induct)
  case (1 old)
  then show ?case by simp
next
  case (2 old c cs)
  show ?case
  proof (cases "prefix old (c # cs)")
    case True
    with 2 have "subseq (replace_scan old [] (drop (length old - 1) cs)) (drop (length old - 1) cs)"
      by simp
    also have "subseq (drop (length old - 1) cs) (c # cs)"
      by (meson subseq_Cons' subseq_order.order_refl suffix_drop suffix_imp_subseq
          subseq_order.order_trans list_emb_Cons)
    finally show ?thesis using True by simp
  next
    case False
    with 2 show ?thesis by simp
  qed
qed

lemma subseq_replace: "old \<noteq> [] \<Longrightarrow> subseq (replace s old []) s"
  by (simp add: replace_def subseq_replace_scan)

lemma replace_scan_char_removed: "c \<notin> set (replace_scan [c] [] s)"
  by (induction s) auto

lemma replace_scan_char_absent: "c \<notin> set s \<Longrightarrow> replace_scan [c] new s = s"
  by (induction s) simp_all

lemma replace_scan_absent: "\<not> sublist old s \<Longrightarrow> replace_scan old new s = s"
  by (induction s) (simp_all add: sublist_Cons_right)

lemma subseq_base_word: "subseq (base_word w) w"
proof -
  let ?a = "replace w ''ing'' []"
  let ?b = "replace ?a ''ed'' []"
  let ?c = "replace ?b ''es'' []"
  have "subseq (base_word w) ?c" by (simp add: base_word_def subseq_replace)
  also have "subseq ?c ?b" by (simp add: subseq_replace)
  also have "subseq ?b ?a" by (simp add: subseq_replace)
  also have "subseq ?a w" by (simp add: subseq_replace)
  finally show ?thesis .
qed

lemma base_word_leading_s: "base_word (CHR ''s'' # w) = base_word w"
  by (simp add: base_word_def replace_def)

lemma base_word_unchanged:
  assumes "\<not> str_in ''ing'' w" and "\<not> str_in ''ed'' w" and "CHR ''s'' \<notin> set w"
  shows "base_word w = w"
proof -
  have "\<not> sublist ''es'' w"
    using assms(3) by (meson list.set_intros set_mono_sublist subsetD)
  with assms show ?thesis
    by (simp add: base_word_def replace_def str_in_def replace_scan_absent
        replace_scan_char_absent)
qed

lemma action_mappings_sit: "action_mappings ''sit'' = Some ''sit''"
  by (simp add: action_mappings_def dict_of_items_lookup action_mappings_items_def)

text \<open>
  Claim C2 says that the stem is the word with its trailing \<open>ing\<close>, \<open>ed\<close>, \<open>es\<close>, \<open>s\<close>
  stripped, and only occurrences at the end of the word are removed. The code removes
  them wherever they stand. On words of the vocabulary: \<open>sign\<close> ends in none of the four
  and stripping leaves it, the code gives \<open>ign\<close>; \<open>seed\<close> stripped is \<open>se\<close>, the code gives
  \<open>e\<close>; \<open>sit\<close> stripped is \<open>sit\<close>, the code gives \<open>it\<close>, and with the inventory
  \<open>{it}\<close> the resolver answers \<open>it\<close> for \<open>sit\<close>.
\<close>

theorem base_word_removes_inner_occurrences:
  "base_word ''sign'' = ''ign'' \<and> strip_trailing_suffixes ''sign'' = ''sign''
   \<and> base_word ''seed'' = ''e'' \<and> strip_trailing_suffixes ''seed'' = ''se''
   \<and> base_word ''sit'' = ''it'' \<and> strip_trailing_suffixes ''sit'' = ''sit''
   \<and> \<not> prefix (base_word ''sign'') ''sign''
   \<and> sign_action {''it''} action_mappings ''sit'' = ''it''"
proof -
  have b: "base_word ''sign'' = ''ign''" "base_word ''seed'' = ''e''" "base_word ''sit'' = ''it''"
    by (simp_all add: base_word_def replace_def)
  have s: "strip_trailing_suffixes ''sign'' = ''sign''"
    "strip_trailing_suffixes ''seed'' = ''se''" "strip_trailing_suffixes ''sit'' = ''sit''"
    by (simp_all add: strip_trailing_suffixes_def strip_suffix_def endswith_rev)
  have "sign_action {''it''} action_mappings ''sit'' = ''it''"
    by (simp add: sign_action_def mapped_action_def action_mappings_sit b lower_def
        lower_char_bit5)
  with b s show ?thesis by simp
qed


section \<open>The resolver always answers\<close>


lemma action_mappings_items_lower: "list_all (\<lambda>(k, v). lower v = v) action_mappings_items"
  by (simp add: action_mappings_items_def lower_def lower_char_bit5)

lemma action_mappings_lower: "action_mappings k = Some v \<Longrightarrow> lower v = v"
proof -
  assume "action_mappings k = Some v"
  then have "(k, v) \<in> set action_mappings_items"
    by (simp add: action_mappings_def dict_of_items_in_items)
  with action_mappings_items_lower show "lower v = v"
    by (auto simp: list_all_iff)
qed

lemma lower_mapped_action:
  "lower (mapped_action action_mappings w) = mapped_action action_mappings w"
  by (auto simp: mapped_action_def lower_idem action_mappings_lower split: option.splits)

lemma sign_action_not_Nil: "sign_action (load_available_signs d) m w \<noteq> []"
proof -
  let ?A = "load_available_signs d"
  have "mapped_action m w \<noteq> []" if "lower (mapped_action m w) \<in> ?A"
    using that available_signs_not_Nil [of d] by (auto simp: lower_def)
  moreover have "lower u \<noteq> []" if "lower u \<in> ?A" for u
    using that available_signs_not_Nil [of d] by auto
  ultimately show ?thesis
    by (auto simp: sign_action_def)
qed

lemma sign_action_member:
  assumes "mapped_action action_mappings w \<in> load_available_signs d
           \<or> w \<in> load_available_signs d \<or> base_word w \<in> load_available_signs d"
  shows "sign_action (load_available_signs d) action_mappings w \<in> load_available_signs d"
proof (cases "lower (mapped_action action_mappings w) \<in> load_available_signs d")
  case True
  then show ?thesis
    by (simp add: sign_action_def lower_mapped_action)
next
  case False
  then have "mapped_action action_mappings w \<notin> load_available_signs d"
    by (simp add: lower_mapped_action)
  with assms have "lower w \<in> load_available_signs d \<or> lower (base_word w) \<in> load_available_signs d"
    using available_signs_lower [of w d] available_signs_lower [of "base_word w" d] by auto
  with False show ?thesis
    by (auto simp: sign_action_def)
qed

text \<open>
  Claim C5. The resolver is a total function: no lookup, comparison or replacement in it
  can raise. On the inventory the loader returns, whatever the directory holds, the sign
  of every word is a non-empty string, and so is the sign of every row of the dataset.
  When the action the map resolves, the word itself or its stem is in the inventory, the
  sign returned is in the inventory.
\<close>

theorem sign_action_total:
  "sign_action (load_available_signs d) action_mappings w \<noteq> []
   \<and> (\<forall>r \<in> set (generate_action_dataset (load_available_signs d) iteration). sign r \<noteq> [])
   \<and> (mapped_action action_mappings w \<in> load_available_signs d
        \<or> w \<in> load_available_signs d \<or> base_word w \<in> load_available_signs d
      \<longrightarrow> sign_action (load_available_signs d) action_mappings w \<in> load_available_signs d)"
proof -
  have "\<forall>r \<in> set (generate_action_dataset (load_available_signs d) iteration). sign r \<noteq> []"
  proof
    fix r
    assume "r \<in> set (generate_action_dataset (load_available_signs d) iteration)"
    then obtain u where
      "r \<in> set (rows_for_word (load_available_signs d) action_mappings word_to_category u)"
      by (auto simp: generate_action_dataset_def generate_loop_concat)
    then have "sign r = sign_action (load_available_signs d) action_mappings u"
      by (rule sign_rows_for_word)
    then show "sign r \<noteq> []"
      by (simp add: sign_action_not_Nil)
  qed
  then show ?thesis
    using sign_action_member [of w d] by (simp add: sign_action_not_Nil)
qed

theorem sign_action_total_witness:
  "mapped_action action_mappings ''evacuate'' \<in> load_available_signs (Some [''run.sigml'', ''do.sigml''])
   \<and> sign_action (load_available_signs (Some [''run.sigml'', ''do.sigml''])) action_mappings
        ''evacuate'' \<in> load_available_signs (Some [''run.sigml'', ''do.sigml''])
   \<and> sign_action (load_available_signs (Some [''run.sigml'', ''do.sigml''])) action_mappings
        ''evacuate'' \<noteq> []"
proof -
  have "mapped_action action_mappings ''evacuate''
          \<in> load_available_signs (Some [''run.sigml'', ''do.sigml''])"
    by (simp add: mapped_action_evacuate load_run_do)
  with sign_action_total [of "Some [''run.sigml'', ''do.sigml'']" "''evacuate''" "[]"]
  show ?thesis by blast
qed


section \<open>The tabular export read back\<close>


lemma end_of_line_quoted:
  "end_of_line ((IN_QUOTED_FIELD, fld, flds), recs) = ((IN_QUOTED_FIELD, fld, flds), recs)"
  by (simp add: end_of_line_def)

lemma reader_char_plain:
  assumes "ls \<noteq> AFTER_CR" and "\<not> csv_newline c"
  shows "reader_char (ls, p, recs) c = (IN_LINE, parse_process_char p (Some c), recs)"
  using assms by (simp add: reader_char_def csv_newline_def)

lemma reader_char_quoted:
  assumes "c \<noteq> CHR 0x22"
  shows "\<exists>ls'. reader_char (ls, (IN_QUOTED_FIELD, fld, flds), recs) c
           = (ls', (IN_QUOTED_FIELD, fld @ [c], flds), recs)"
  using assms by (simp add: reader_char_def end_of_line_quoted)

lemma reader_char_quote_in_quoted:
  "reader_char (ls, (IN_QUOTED_FIELD, fld, flds), recs) (CHR 0x22)
     = (IN_LINE, (QUOTE_IN_QUOTED_FIELD, fld, flds), recs)"
  by (simp add: reader_char_def end_of_line_quoted)

lemma reader_quoted_body:
  "\<exists>ls'. foldl reader_char (ls, (IN_QUOTED_FIELD, fld, flds), recs)
            (concat (map (\<lambda>c. if c = CHR 0x22 then [c, c] else [c]) f))
         = (ls', (IN_QUOTED_FIELD, fld @ f, flds), recs)"
proof (induction f arbitrary: ls fld)
  case Nil
  then show ?case by simp
next
  case (Cons c f)
  show ?case
  proof (cases "c = CHR 0x22")
    case True
    have "reader_char (reader_char (ls, (IN_QUOTED_FIELD, fld, flds), recs) c) c
          = (IN_LINE, (IN_QUOTED_FIELD, fld @ [c], flds), recs)"
      by (simp add: True reader_char_quote_in_quoted reader_char_plain csv_newline_def)
    with Cons.IH [of IN_LINE "fld @ [c]"] True show ?thesis
      by simp
  next
    case False
    from reader_char_quoted [OF False, of ls fld flds recs] obtain ls1 where
      "reader_char (ls, (IN_QUOTED_FIELD, fld, flds), recs) c
       = (ls1, (IN_QUOTED_FIELD, fld @ [c], flds), recs)" ..
    with Cons.IH [of ls1 "fld @ [c]"] False show ?thesis
      by simp
  qed
qed

lemma reader_plain_body:
  assumes "\<not> list_ex csv_special f" and "ls \<noteq> AFTER_CR"
    and "st = START_RECORD \<or> st = START_FIELD \<or> st = IN_FIELD"
  shows "foldl reader_char (ls, (st, fld, flds), recs) f
         = (if f = [] then ls else IN_LINE, (if f = [] then st else IN_FIELD, fld @ f, flds), recs)"
  using assms
proof (induction f arbitrary: ls st fld)
  case Nil
  then show ?case by simp
next
  case (Cons c f)
  from Cons.prems(1) have "\<not> csv_special c" and f: "\<not> list_ex csv_special f"
    by simp_all
  then have c: "\<not> csv_newline c" "c \<noteq> CHR 0x22" "c \<noteq> CHR '',''"
    by (simp_all add: csv_special_def csv_newline_def)
  from Cons.prems(3) c have
    "parse_process_char (st, fld, flds) (Some c) = (IN_FIELD, fld @ [c], flds)"
    by auto
  with Cons.prems(2) c have
    "reader_char (ls, (st, fld, flds), recs) c = (IN_LINE, (IN_FIELD, fld @ [c], flds), recs)"
    by (simp add: reader_char_plain)
  with Cons.IH [OF f, of IN_LINE IN_FIELD "fld @ [c]"] show ?case
    by simp
qed

lemma reader_field_comma:
  assumes "ls \<noteq> AFTER_CR" and "st = START_RECORD \<or> st = START_FIELD"
  shows "foldl reader_char (ls, (st, [], flds), recs) (csv_field f @ CHR '','' # rest)
         = foldl reader_char (IN_LINE, (START_FIELD, [], flds @ [f]), recs) rest"
proof (cases "list_ex csv_special f")
  case False
  from assms have 1: "foldl reader_char (ls, (st, [], flds), recs) f
        = (if f = [] then ls else IN_LINE, (if f = [] then st else IN_FIELD, f, flds), recs)"
    using reader_plain_body [OF False, of ls st "[]" flds recs] by auto
  have "reader_char (if f = [] then ls else IN_LINE,
          (if f = [] then st else IN_FIELD, f, flds), recs) (CHR '','')
        = (IN_LINE, (START_FIELD, [], flds @ [f]), recs)"
    using assms by (auto simp: reader_char_plain csv_newline_def)
  with 1 False show ?thesis
    by (simp add: csv_field_def)
next
  case True
  have 1: "reader_char (ls, (st, [], flds), recs) (CHR 0x22)
           = (IN_LINE, (IN_QUOTED_FIELD, [], flds), recs)"
    using assms by (auto simp: reader_char_plain csv_newline_def)
  from reader_quoted_body [of IN_LINE "[]" flds recs f] obtain ls1 where
    2: "foldl reader_char (IN_LINE, (IN_QUOTED_FIELD, [], flds), recs)
            (concat (map (\<lambda>c. if c = CHR 0x22 then [c, c] else [c]) f))
         = (ls1, (IN_QUOTED_FIELD, f, flds), recs)"
    by auto
  have 3: "reader_char (reader_char (ls1, (IN_QUOTED_FIELD, f, flds), recs) (CHR 0x22)) (CHR '','')
           = (IN_LINE, (START_FIELD, [], flds @ [f]), recs)"
    by (simp add: reader_char_quote_in_quoted reader_char_plain csv_newline_def)
  from True 1 2 3 show ?thesis
    by (simp add: csv_field_def)
qed

lemma reader_crlf:
  assumes "ls \<noteq> AFTER_CR" and "st = START_FIELD \<or> st = IN_FIELD \<or> st = QUOTE_IN_QUOTED_FIELD"
  shows "reader_char (reader_char (ls, (st, fld, flds), recs) (CHR 0x0D)) (CHR 0x0A)
         = (LINE_START, (START_RECORD, [], []), recs @ [flds @ [fld]])"
  using assms by (auto simp: reader_char_def csv_newline_def end_of_line_def)

lemma reader_field_crlf:
  assumes "ls \<noteq> AFTER_CR"
  shows "foldl reader_char (ls, (START_FIELD, [], flds), recs)
           (csv_field f @ CHR 0x0D # CHR 0x0A # rest)
         = foldl reader_char (LINE_START, (START_RECORD, [], []), recs @ [flds @ [f]]) rest"
proof (cases "list_ex csv_special f")
  case False
  from assms have 1: "foldl reader_char (ls, (START_FIELD, [], flds), recs) f
        = (if f = [] then ls else IN_LINE,
           (if f = [] then START_FIELD else IN_FIELD, f, flds), recs)"
    using reader_plain_body [OF False, of ls START_FIELD "[]" flds recs] by auto
  have "reader_char (reader_char (if f = [] then ls else IN_LINE,
          (if f = [] then START_FIELD else IN_FIELD, f, flds), recs) (CHR 0x0D)) (CHR 0x0A)
        = (LINE_START, (START_RECORD, [], []), recs @ [flds @ [f]])"
    using assms by (intro reader_crlf) auto
  with 1 False show ?thesis
    by (simp add: csv_field_def)
next
  case True
  have 1: "reader_char (ls, (START_FIELD, [], flds), recs) (CHR 0x22)
           = (IN_LINE, (IN_QUOTED_FIELD, [], flds), recs)"
    using assms by (auto simp: reader_char_plain csv_newline_def)
  from reader_quoted_body [of IN_LINE "[]" flds recs f] obtain ls1 where
    2: "foldl reader_char (IN_LINE, (IN_QUOTED_FIELD, [], flds), recs)
            (concat (map (\<lambda>c. if c = CHR 0x22 then [c, c] else [c]) f))
         = (ls1, (IN_QUOTED_FIELD, f, flds), recs)"
    by auto
  have 3: "reader_char (ls1, (IN_QUOTED_FIELD, f, flds), recs) (CHR 0x22)
           = (IN_LINE, (QUOTE_IN_QUOTED_FIELD, f, flds), recs)"
    by (rule reader_char_quote_in_quoted)
  have 4: "reader_char (reader_char (IN_LINE, (QUOTE_IN_QUOTED_FIELD, f, flds), recs) (CHR 0x0D))
             (CHR 0x0A)
           = (LINE_START, (START_RECORD, [], []), recs @ [flds @ [f]])"
    by (intro reader_crlf) auto
  from True 1 2 3 4 show ?thesis
    by (simp add: csv_field_def)
qed

lemma reader_writerow:
  "foldl reader_char (LINE_START, (START_RECORD, [], []), recs)
     (csv_writerow [a, b, c, d] @ rest)
   = foldl reader_char (LINE_START, (START_RECORD, [], []), recs @ [[a, b, c, d]]) rest"
proof -
  have l: "LINE_START \<noteq> AFTER_CR" "IN_LINE \<noteq> AFTER_CR"
    by simp_all
  have s: "START_RECORD = START_RECORD \<or> START_RECORD = START_FIELD"
    "START_FIELD = START_RECORD \<or> START_FIELD = START_FIELD"
    by simp_all
  have e: "csv_writerow [a, b, c, d] @ rest
        = csv_field a @ CHR '','' # csv_field b @ CHR '','' # csv_field c @ CHR '',''
          # csv_field d @ CHR 0x0D # CHR 0x0A # rest"
    by (simp add: csv_writerow_def)
  show ?thesis
    unfolding e reader_field_comma [OF l(1) s(1)] reader_field_comma [OF l(2) s(2)]
      reader_field_crlf [OF l(2)]
    by (simp only: append_Nil append_Cons)
qed

lemma reader_writerows:
  "foldl reader_char (LINE_START, (START_RECORD, [], []), recs)
     (concat (map (\<lambda>r. csv_writerow [word r, sign r, sovExample r, category r]) dataset))
   = (LINE_START, (START_RECORD, [], []),
      recs @ map (\<lambda>r. [word r, sign r, sovExample r, category r]) dataset)"
proof (induction dataset arbitrary: recs)
  case Nil
  then show ?case by simp
next
  case (Cons r dataset)
  have "foldl reader_char (LINE_START, (START_RECORD, [], []), recs)
          (concat (map (\<lambda>r. csv_writerow [word r, sign r, sovExample r, category r])
                    (r # dataset)))
        = foldl reader_char (LINE_START, (START_RECORD, [], []),
            recs @ [[word r, sign r, sovExample r, category r]])
          (concat (map (\<lambda>r. csv_writerow [word r, sign r, sovExample r, category r]) dataset))"
    unfolding list.map concat.simps by (rule reader_writerow)
  with Cons.IH [of "recs @ [[word r, sign r, sovExample r, category r]]"] show ?case
    by simp
qed

lemma csv_reader_export:
  "csv_reader (export_to_csv dataset)
   = Some (fieldnames # map (\<lambda>r. [word r, sign r, sovExample r, category r]) dataset)"
proof -
  have "export_to_csv dataset
        = csv_writerow [''word'', ''sign'', ''sovExample'', ''category'']
          @ concat (map (\<lambda>r. csv_writerow [word r, sign r, sovExample r, category r]) dataset)"
    by (simp add: export_to_csv_def csv_records_def dict_to_list_def row_dict_def
        fieldnames_def comp_def)
  then have "foldl reader_char (LINE_START, (START_RECORD, [], []), []) (export_to_csv dataset)
        = (LINE_START, (START_RECORD, [], []),
           [] @ [[''word'', ''sign'', ''sovExample'', ''category'']]
           @ map (\<lambda>r. [word r, sign r, sovExample r, category r]) dataset)"
    by (simp only: reader_writerow reader_writerows append_assoc)
  then show ?thesis
    by (simp add: csv_reader_def reader_finish_def fieldnames_def)
qed


section \<open>The structured export read back\<close>


lemma hex_value_hex_digit: "d < 16 \<Longrightarrow> hex_value (hex_digit d) = Some d"
  by (auto simp: hex_value_def hex_digit_def digit_char_def less_eq_char_def)

lemma scan_spaces:
  "json_scan OUTSIDE acc toks (replicate k CHR '' '' @ s) = json_scan OUTSIDE acc toks s"
  by (induction k) (simp_all add: json_whitespace_def)

lemma scan_newline_indent:
  "json_scan OUTSIDE acc toks (newline_indent n @ s) = json_scan OUTSIDE acc toks s"
  by (simp add: newline_indent_def json_whitespace_def scan_spaces)

lemma scan_escape_char:
  "json_scan IN_STRING acc toks (json_escape_char c @ rest)
   = json_scan IN_STRING (acc @ [c]) toks rest"
proof -
  consider (named) "c = CHR 0x5C \<or> c = CHR 0x22 \<or> c = CHR 0x08 \<or> c = CHR 0x0C
        \<or> c = CHR 0x0A \<or> c = CHR 0x0D \<or> c = CHR 0x09"
    | (control) "\<not> (c = CHR 0x5C \<or> c = CHR 0x22 \<or> c = CHR 0x08 \<or> c = CHR 0x0C
        \<or> c = CHR 0x0A \<or> c = CHR 0x0D \<or> c = CHR 0x09)" "of_char c < (32::nat)"
    | (plain) "\<not> (c = CHR 0x5C \<or> c = CHR 0x22 \<or> c = CHR 0x08 \<or> c = CHR 0x0C
        \<or> c = CHR 0x0A \<or> c = CHR 0x0D \<or> c = CHR 0x09)" "\<not> of_char c < (32::nat)"
    by blast
  then show ?thesis
  proof cases
    case named
    then show ?thesis
      by (auto simp: json_escape_char_def json_unescape_def)
  next
    case control
    let ?n = "of_char c :: nat"
    have d: "?n div 16 < 16" "?n mod 16 < 16"
      using control(2) by simp_all
    have z: "hex_value CHR ''0'' = Some 0"
      by (simp add: hex_value_def)
    have n: "16 * (?n div 16) + ?n mod 16 = ?n"
      by simp
    from control have e: "json_escape_char c
        = [CHR 0x5C, CHR ''u'', CHR ''0'', CHR ''0'', hex_digit (?n div 16), hex_digit (?n mod 16)]"
      by (simp add: json_escape_char_def)
    show ?thesis
      using control(2) by (simp add: e z hex_value_hex_digit d n)
  next
    case plain
    then show ?thesis
      by (simp add: json_escape_char_def)
  qed
qed

lemma scan_string_body:
  "json_scan IN_STRING acc toks (concat (map json_escape_char s) @ CHR 0x22 # rest)
   = json_scan OUTSIDE [] (toks @ [STRING (acc @ s)]) rest"
proof (induction s arbitrary: acc)
  case Nil
  then show ?case by simp
next
  case (Cons c s)
  have "json_scan IN_STRING acc toks
          (json_escape_char c @ (concat (map json_escape_char s) @ CHR 0x22 # rest))
        = json_scan IN_STRING (acc @ [c]) toks (concat (map json_escape_char s) @ CHR 0x22 # rest)"
    by (rule scan_escape_char)
  with Cons.IH [of "acc @ [c]"] show ?case
    by simp
qed

lemma scan_json_string:
  "json_scan OUTSIDE acc toks (json_string s @ rest)
   = json_scan OUTSIDE [] (toks @ [STRING s]) rest"
  using scan_string_body [of "[]" toks s rest]
  by (simp add: json_string_def json_whitespace_def)


lemma row_object_text:
  "json_encode (Suc 0) (JObject (map (\<lambda>(k, v). (k, JString v)) (row_dict r)))
   = ''{'' @ newline_indent (Suc (Suc 0))
     @ json_string ''word'' @ '': '' @ json_string (word r) @ '',''
     @ newline_indent (Suc (Suc 0))
     @ json_string ''sign'' @ '': '' @ json_string (sign r) @ '',''
     @ newline_indent (Suc (Suc 0))
     @ json_string ''sovExample'' @ '': '' @ json_string (sovExample r) @ '',''
     @ newline_indent (Suc (Suc 0))
     @ json_string ''category'' @ '': '' @ json_string (category r)
     @ newline_indent (Suc 0) @ ''}''"
  by (simp add: row_dict_def)

lemma scan_row_object:
  "json_scan OUTSIDE acc toks
     (json_encode (Suc 0) (JObject (map (\<lambda>(k, v). (k, JString v)) (row_dict r))) @ rest)
   = json_scan OUTSIDE [] (toks @ row_tokens r) rest"
  unfolding row_object_text
  by (simp add: scan_newline_indent scan_json_string json_whitespace_def row_tokens_def)

lemma scan_row_objects:
  "json_scan OUTSIDE acc toks
     (join (CHR '','' # newline_indent (Suc 0))
        (map (\<lambda>r. json_encode (Suc 0) (JObject (map (\<lambda>(k, v). (k, JString v)) (row_dict r))))
           (r # rs)) @ rest)
   = json_scan OUTSIDE [] (toks @ row_tokens r @ concat (map (\<lambda>r. COMMA # row_tokens r) rs))
       rest"
proof (induction rs arbitrary: r acc toks)
  case Nil
  have "json_scan OUTSIDE acc toks
          (json_encode (Suc 0) (JObject (map (\<lambda>(k, v). (k, JString v)) (row_dict r))) @ rest)
        = json_scan OUTSIDE [] (toks @ row_tokens r) rest"
    by (rule scan_row_object)
  then show ?case
    by (simp del: json_encode.simps)
next
  case (Cons r' rs)
  let ?obj = "\<lambda>r. json_encode (Suc 0) (JObject (map (\<lambda>(k, v). (k, JString v)) (row_dict r)))"
  let ?tail = "join (CHR '','' # newline_indent (Suc 0)) (map ?obj (r' # rs)) @ rest"
  have 1: "join (CHR '','' # newline_indent (Suc 0)) (map ?obj (r # r' # rs)) @ rest
        = ?obj r @ (CHR '','' # newline_indent (Suc 0) @ ?tail)"
    by (simp del: json_encode.simps)
  have 2: "json_scan OUTSIDE acc toks (?obj r @ (CHR '','' # newline_indent (Suc 0) @ ?tail))
        = json_scan OUTSIDE [] (toks @ row_tokens r) (CHR '','' # newline_indent (Suc 0) @ ?tail)"
    by (rule scan_row_object)
  have 3: "json_scan OUTSIDE [] (toks @ row_tokens r) (CHR '','' # newline_indent (Suc 0) @ ?tail)
        = json_scan OUTSIDE [] ((toks @ row_tokens r) @ [COMMA]) ?tail"
    by (simp add: scan_newline_indent json_whitespace_def del: json_encode.simps)
  from Cons.IH [of "[]" "(toks @ row_tokens r) @ [COMMA]" r'] show ?case
    unfolding 1 2 3 by simp
qed

lemma rows_object:
  "json_rows AFTER_LBRACE [] rows (tl (row_tokens r) @ ts)
   = json_rows AFTER_OBJECT [] (rows @ [row_dict r]) ts"
  by (simp add: row_tokens_def row_dict_def)

lemma rows_objects:
  "json_rows AFTER_OBJECT ms rows (concat (map (\<lambda>r. COMMA # row_tokens r) rs) @ [RBRACKET])
   = Some (rows @ map row_dict rs)"
proof (induction rs arbitrary: ms rows)
  case Nil
  then show ?case by simp
next
  case (Cons r rs)
  let ?tail = "concat (map (\<lambda>r. COMMA # row_tokens r) rs) @ [RBRACKET]"
  have "concat (map (\<lambda>r. COMMA # row_tokens r) (r # rs)) @ [RBRACKET]
        = COMMA # LBRACE # tl (row_tokens r) @ ?tail"
    by (simp add: row_tokens_def)
  then have "json_rows AFTER_OBJECT ms rows
               (concat (map (\<lambda>r. COMMA # row_tokens r) (r # rs)) @ [RBRACKET])
        = json_rows AFTER_LBRACE [] rows (tl (row_tokens r) @ ?tail)"
    by (simp only: json_rows.simps)
  also have "\<dots> = json_rows AFTER_OBJECT [] (rows @ [row_dict r]) ?tail"
    by (rule rows_object)
  also have "\<dots> = Some ((rows @ [row_dict r]) @ map row_dict rs)"
    by (rule Cons.IH)
  finally show ?case by simp
qed

lemma json_load_export: "json_load (export_to_json dataset) = Some (map row_dict dataset)"
proof (cases dataset)
  case Nil
  then show ?thesis
    by (simp add: json_load_def export_to_json_def dataset_json_def json_whitespace_def)
next
  case (Cons r rs)
  let ?obj = "\<lambda>r. json_encode (Suc 0) (JObject (map (\<lambda>(k, v). (k, JString v)) (row_dict r)))"
  let ?toks = "concat (map (\<lambda>r. COMMA # row_tokens r) rs) @ [RBRACKET]"
  have 1: "export_to_json dataset
        = CHR ''['' # newline_indent (Suc 0)
          @ (join (CHR '','' # newline_indent (Suc 0)) (map ?obj (r # rs))
             @ (newline_indent 0 @ '']''))"
    unfolding export_to_json_def dataset_json_def Cons
    by (subst json_encode.simps(2)) (simp add: comp_def del: json_encode.simps)
  have 2: "json_scan OUTSIDE [] [] (export_to_json dataset)
        = json_scan OUTSIDE [] [LBRACKET]
            (join (CHR '','' # newline_indent (Suc 0)) (map ?obj (r # rs))
             @ (newline_indent 0 @ '']''))"
    unfolding 1 by (simp add: scan_newline_indent json_whitespace_def del: json_encode.simps)
  have 3: "\<dots> = json_scan OUTSIDE []
                   ([LBRACKET] @ row_tokens r @ concat (map (\<lambda>r. COMMA # row_tokens r) rs))
                   (newline_indent 0 @ '']'')"
    by (rule scan_row_objects)
  have 4: "\<dots> = Some (LBRACKET # LBRACE # tl (row_tokens r) @ ?toks)"
    by (simp add: scan_newline_indent json_whitespace_def row_tokens_def)
  have "json_load (export_to_json dataset)
        = json_rows AFTER_LBRACE [] [] (tl (row_tokens r) @ ?toks)"
    unfolding json_load_def 2 3 4 by simp
  also have "\<dots> = json_rows AFTER_OBJECT [] ([] @ [row_dict r]) ?toks"
    by (rule rows_object)
  also have "\<dots> = Some (([] @ [row_dict r]) @ map row_dict rs)"
    by (rule rows_objects)
  finally show ?thesis
    by (simp add: Cons)
qed


section \<open>The exports and determinism\<close>


lemma csv_writerow_fieldnames:
  "csv_writerow fieldnames = ''word,sign,sovExample,category'' @ [CHR 0x0D, CHR 0x0A]"
  by (simp add: csv_writerow_def fieldnames_def csv_field_def csv_special_def)

lemma export_to_csv_lines:
  "export_to_csv dataset
   = ''word,sign,sovExample,category'' @ [CHR 0x0D, CHR 0x0A]
     @ concat (map (\<lambda>r. csv_writerow [word r, sign r, sovExample r, category r]) dataset)"
proof -
  have "csv_records dataset
        = fieldnames # map (\<lambda>r. [word r, sign r, sovExample r, category r]) dataset"
    by (simp add: csv_records_def dict_to_list_def row_dict_def fieldnames_def)
  then show ?thesis
    unfolding export_to_csv_def by (simp add: csv_writerow_fieldnames comp_def)
qed

lemma header_word_sign:
  "dict_of_items (zip fieldnames [a, b, c, d]) ''word'' = Some a"
  "dict_of_items (zip fieldnames [a, b, c, d]) ''sign'' = Some b"
  by (simp_all add: dict_of_items_lookup fieldnames_def)

lemma row_dict_word_sign:
  "dict_of_items (row_dict r) ''word'' = Some (word r)"
  "dict_of_items (row_dict r) ''sign'' = Some (sign r)"
  by (simp_all add: dict_of_items_lookup row_dict_def)

lemma csv_word_sign_export:
  "csv_word_sign (export_to_csv dataset) = Some (map (\<lambda>r. (Some (word r), Some (sign r))) dataset)"
  by (simp add: csv_word_sign_def csv_reader_export comp_def header_word_sign)

lemma json_word_sign_export:
  "json_word_sign (export_to_json dataset)
   = Some (map (\<lambda>r. (Some (word r), Some (sign r))) dataset)"
  by (simp add: json_word_sign_def json_load_export comp_def row_dict_word_sign)

text \<open>
  Claim C8. The tabular export is the header line \<open>word,sign,sovExample,category\<close>
  followed by one record for each row, and \<open>csv.reader\<close> finds in it the header and the
  rows, their fields in that order. \<open>json.load\<close> finds in the structured export one
  object for each row, with the four fields under their names. Read back from the two
  texts, the rows are as many as the collection has, and the pairs of word and sign are
  the same, row by row.
\<close>

theorem csv_json_same_rows:
  "export_to_csv dataset
     = ''word,sign,sovExample,category'' @ [CHR 0x0D, CHR 0x0A]
       @ concat (map (\<lambda>r. csv_writerow [word r, sign r, sovExample r, category r]) dataset)
   \<and> csv_reader (export_to_csv dataset)
     = Some ([''word'', ''sign'', ''sovExample'', ''category'']
             # map (\<lambda>r. [word r, sign r, sovExample r, category r]) dataset)
   \<and> json_load (export_to_json dataset)
     = Some (map (\<lambda>r. [(''word'', word r), (''sign'', sign r),
                        (''sovExample'', sovExample r), (''category'', category r)]) dataset)
   \<and> map_option (\<lambda>records. length (tl records)) (csv_reader (export_to_csv dataset))
     = Some (length dataset)
   \<and> map_option length (json_load (export_to_json dataset)) = Some (length dataset)
   \<and> csv_word_sign (export_to_csv dataset)
     = Some (map (\<lambda>r. (Some (word r), Some (sign r))) dataset)
   \<and> json_word_sign (export_to_json dataset)
     = Some (map (\<lambda>r. (Some (word r), Some (sign r))) dataset)
   \<and> map_option set (csv_word_sign (export_to_csv dataset))
     = map_option set (json_word_sign (export_to_json dataset))"
proof -
  have j: "json_load (export_to_json dataset)
     = Some (map (\<lambda>r. [(''word'', word r), (''sign'', sign r),
                        (''sovExample'', sovExample r), (''category'', category r)]) dataset)"
    by (simp add: json_load_export row_dict_def)
  have c: "csv_reader (export_to_csv dataset)
     = Some ([''word'', ''sign'', ''sovExample'', ''category'']
             # map (\<lambda>r. [word r, sign r, sovExample r, category r]) dataset)"
    by (simp add: csv_reader_export fieldnames_def)
  have n: "map_option (\<lambda>records. length (tl records)) (csv_reader (export_to_csv dataset))
     = Some (length dataset)"
    "map_option length (json_load (export_to_json dataset)) = Some (length dataset)"
    by (simp_all add: c j)
  have p: "map_option set (csv_word_sign (export_to_csv dataset))
     = map_option set (json_word_sign (export_to_json dataset))"
    by (simp add: csv_word_sign_export json_word_sign_export)
  show ?thesis
    by (intro conjI)
       (rule export_to_csv_lines c j n csv_word_sign_export json_word_sign_export p)+
qed

lemma sort_distinct_eq: "distinct xs \<Longrightarrow> sort xs = sorted_list_of_set (set xs)"
  by (simp add: sorted_list_of_set_sort_remdups distinct_remdups_id)

lemma load_available_signs_image:
  "load_available_signs (Some names)
   = (\<lambda>n. lower (stem n)) ` {n \<in> set names. endswith n ''.sigml''}"
  by (auto simp: load_available_signs_def glob_sigml_def)

text \<open>
  Claim C9. The vocabulary is a set, iterated in an order that may differ from run to
  run; sorting it gives the one sorted list of the set, whatever that order was. So two
  runs with the same vocabulary and the same inventory build the same dataset, and the
  three exporters, functions of the dataset, write the same bytes.
\<close>

theorem generation_deterministic:
  assumes "it1 \<in> iteration_orders all_words" and "it2 \<in> iteration_orders all_words"
  shows "sort it1 = sorted_list_of_set all_words
   \<and> sort it2 = sorted_list_of_set all_words
   \<and> generate_action_dataset A it1 = generate_action_dataset A it2
   \<and> export_to_json (generate_action_dataset A it1)
       = export_to_json (generate_action_dataset A it2)
   \<and> export_to_csv (generate_action_dataset A it1)
       = export_to_csv (generate_action_dataset A it2)
   \<and> generate_typescript_dataset (generate_action_dataset A it1)
       = generate_typescript_dataset (generate_action_dataset A it2)"
proof -
  from assms have "sort it1 = sorted_list_of_set all_words"
    and "sort it2 = sorted_list_of_set all_words"
    by (simp_all add: iteration_orders_def sort_distinct_eq)
  then show ?thesis
    by (simp add: generate_action_dataset_def)
qed

theorem generation_deterministic_witness:
  "remdups (CISLR_VOCABULARY @ INCLUDE_VOCABULARY @ ISLTRANSLATE_VOCABULARY)
     \<in> iteration_orders all_words
   \<and> rev (remdups (CISLR_VOCABULARY @ INCLUDE_VOCABULARY @ ISLTRANSLATE_VOCABULARY))
     \<in> iteration_orders all_words
   \<and> generate_action_dataset {''run'', ''do''}
        (remdups (CISLR_VOCABULARY @ INCLUDE_VOCABULARY @ ISLTRANSLATE_VOCABULARY))
     = generate_action_dataset {''run'', ''do''}
        (rev (remdups (CISLR_VOCABULARY @ INCLUDE_VOCABULARY @ ISLTRANSLATE_VOCABULARY)))"
proof -
  let ?V = "CISLR_VOCABULARY @ INCLUDE_VOCABULARY @ ISLTRANSLATE_VOCABULARY"
  have 1: "remdups ?V \<in> iteration_orders all_words"
    and 2: "rev (remdups ?V) \<in> iteration_orders all_words"
    by (simp_all add: iteration_orders_def all_words_def)
  from 1 2 generation_deterministic [OF 1 2, of "{''run'', ''do''}"] show ?thesis
    by blast
qed


section \<open>The examples of the variant rows\<close>


text \<open>
  For the words of the three vocabulary lists that end in \<open>e\<close>, the word of a variant
  row does not occur in the example of that row; checked list by list.
\<close>

lemma raw_word_CISLR:
  "list_all (\<lambda>w. endswith w ''e'' \<longrightarrow>
        \<not> str_in (butlast w @ ''ing'') (''I '' @ w @ ''ing am'')
        \<and> \<not> str_in (w @ ''d'') (''I yesterday '' @ w @ ''ed'')) CISLR_VOCABULARY"
  by code_simp

lemma raw_word_INCLUDE:
  "list_all (\<lambda>w. endswith w ''e'' \<longrightarrow>
        \<not> str_in (butlast w @ ''ing'') (''I '' @ w @ ''ing am'')
        \<and> \<not> str_in (w @ ''d'') (''I yesterday '' @ w @ ''ed'')) INCLUDE_VOCABULARY"
  by code_simp

lemma raw_word_ISLTRANSLATE:
  "list_all (\<lambda>w. endswith w ''e'' \<longrightarrow>
        \<not> str_in (butlast w @ ''ing'') (''I '' @ w @ ''ing am'')
        \<and> \<not> str_in (w @ ''d'') (''I yesterday '' @ w @ ''ed'')) ISLTRANSLATE_VOCABULARY"
  by code_simp

lemma raw_word_all_words:
  assumes "w \<in> all_words" and "endswith w ''e''"
  shows "\<not> str_in (butlast w @ ''ing'') (''I '' @ w @ ''ing am'')
         \<and> \<not> str_in (w @ ''d'') (''I yesterday '' @ w @ ''ed'')"
  using assms raw_word_CISLR raw_word_INCLUDE raw_word_ISLTRANSLATE
  unfolding all_words_def list_all_iff by auto

lemma str_in_middle: "str_in s (a @ s @ b)"
  by (simp add: str_in_def sublist_def) blast

text \<open>
  Claim C10. A word of the vocabulary that ends in \<open>e\<close> gets both variant rows. Their
  examples are built from the raw word followed by \<open>ing\<close> and by \<open>ed\<close>, while their words
  are the word without its \<open>e\<close> followed by \<open>ing\<close>, and the word followed by \<open>d\<close>: the
  example does not hold the word of its own row. For \<open>bake\<close> the rows are \<open>baking\<close> with
  \<open>I bakeing am\<close> and \<open>baked\<close> with \<open>I yesterday bakeed\<close>.
\<close>

theorem variant_example_uses_raw_word:
  assumes "w \<in> all_words" and "endswith w ''e''"
  shows "rows_for_word A m c w = [base_row A m c w, ing_row A m c w, ed_row A m c w]
   \<and> word (ing_row A m c w) = butlast w @ ''ing''
   \<and> sovExample (ing_row A m c w) = ''I '' @ (w @ ''ing'') @ '' am''
   \<and> str_in (w @ ''ing'') (sovExample (ing_row A m c w))
   \<and> \<not> str_in (word (ing_row A m c w)) (sovExample (ing_row A m c w))
   \<and> word (ed_row A m c w) = w @ ''d''
   \<and> sovExample (ed_row A m c w) = ''I yesterday '' @ (w @ ''ed'')
   \<and> str_in (w @ ''ed'') (sovExample (ed_row A m c w))
   \<and> \<not> str_in (word (ed_row A m c w)) (sovExample (ed_row A m c w))"
proof -
  have rows: "rows_for_word A m c w = [base_row A m c w, ing_row A m c w, ed_row A m c w]"
    using endswith_e [OF assms(2)] by (simp add: rows_for_word_def)
  have ing: "str_in (w @ ''ing'') (''I '' @ (w @ ''ing'') @ '' am'')"
    by (rule str_in_middle)
  have ed: "str_in (w @ ''ed'') (''I yesterday '' @ (w @ ''ed'') @ [])"
    by (rule str_in_middle)
  show ?thesis
    using raw_word_all_words [OF assms] assms(2) ing ed
    by (simp add: rows ing_row_def ed_row_def)
qed

theorem variant_example_uses_raw_word_witness:
  "''bake'' \<in> all_words \<and> endswith ''bake'' ''e''
   \<and> word (ing_row {} action_mappings word_to_category ''bake'') = ''baking''
   \<and> sovExample (ing_row {} action_mappings word_to_category ''bake'') = ''I bakeing am''
   \<and> \<not> str_in ''baking'' ''I bakeing am''
   \<and> word (ed_row {} action_mappings word_to_category ''bake'') = ''baked''
   \<and> sovExample (ed_row {} action_mappings word_to_category ''bake'') = ''I yesterday bakeed''
   \<and> \<not> str_in ''baked'' ''I yesterday bakeed''"
proof -
  have 1: "''bake'' \<in> all_words"
    by (simp add: all_words_def CISLR_VOCABULARY_def)
  have 2: "endswith ''bake'' ''e''"
    by (simp add: endswith_rev)
  from variant_example_uses_raw_word [OF 1 2, of "{}" action_mappings word_to_category] 1 2
  show ?thesis by (elim conjE) simp
qed

end
